theory Spec2Isabelle
  imports Complex_Main "HOL-Library.Word"
begin

section \<open>Common conventions\<close>

text \<open>
  \<^verbatim>\<open>size_t\<close> is a 64-bit unsigned integer wherever its wrap-around could matter;
  plain indices into vectors are natural numbers. A \<^verbatim>\<open>std::string\<close> is a list of
  8-bit characters.
\<close>

type_synonym size_t = "64 word"

text \<open>Decimal rendering of an unsigned number, as \<^verbatim>\<open>std::format("{}", n)\<close> prints it.\<close>

fun show_nat :: "nat \<Rightarrow> string" where
  "show_nat n =
     (if n < 10 then [''0123456789'' ! n]
      else show_nat (n div 10) @ [''0123456789'' ! (n mod 10)])"

declare show_nat.simps [simp del]

section \<open>Patch dimension sanitization (io/StandardMapParser.cpp)\<close>

text \<open>
  \<^verbatim>\<open>ParserStatus\<close> is an external diagnostics sink; what the parser does with it is
  append warnings, so the sink is the list of warnings issued so far, newest last.
\<close>

record 'loc ParserStatus =
  warnings :: "('loc \<times> string) list"

definition warn :: "'loc \<Rightarrow> string \<Rightarrow> 'loc ParserStatus \<Rightarrow> 'loc ParserStatus" where
  "warn location msg status = status\<lparr>warnings := warnings status @ [(location, msg)]\<rparr>"

definition sanitizePatchCount ::
  "size_t \<Rightarrow> string \<Rightarrow> 'loc \<Rightarrow> 'loc ParserStatus \<Rightarrow> size_t \<times> 'loc ParserStatus" where
  "sanitizePatchCount count label location status =
     (if count < 3 then
        (3, warn location (''Invalid patch '' @ label @ '', expanding to 3'') status)
      else if count mod 2 = 0 then
        (let expanded = count + 1
         in (expanded,
             warn location
               (''Invalid patch '' @ label @ '', expanding to '' @ show_nat (unat expanded))
               status))
      else (count, status))"

section \<open>Hotspot rect parser (io/HotspotRectParser.cpp)\<close>

text \<open>
  A \<^verbatim>\<open>float\<close> is kept as the rational number it stands for: \<^verbatim>\<open>std::stof\<close> rounds
  the decimal value that was read to the nearest binary32 value, and raises
  \<^verbatim>\<open>std::out_of_range\<close> where the value is out of the range of binary32.
\<close>

subsection \<open>Characters and strings\<close>

text \<open>\<^verbatim>\<open>std::isspace\<close>, \<^verbatim>\<open>\d\<close> and \<^verbatim>\<open>std::tolower\<close> in the "C" locale.\<close>

definition isspace :: "char \<Rightarrow> bool" where
  "isspace c = (c \<in> set [CHR '' '', CHR 0x09, CHR 0x0A, CHR 0x0B, CHR 0x0C, CHR 0x0D])"

definition isdigit :: "char \<Rightarrow> bool" where
  "isdigit c = (c \<in> set ''0123456789'')"

definition tolower :: "char \<Rightarrow> char" where
  "tolower c =
     (case map_of (zip ''ABCDEFGHIJKLMNOPQRSTUVWXYZ'' ''abcdefghijklmnopqrstuvwxyz'') c of
        Some l \<Rightarrow> l
      | None \<Rightarrow> c)"

text \<open>\<^verbatim>\<open>std::string::find\<close>: the first position at which the pattern occurs.\<close>

fun find_from :: "string \<Rightarrow> string \<Rightarrow> nat \<Rightarrow> nat option" where
  "find_from pat [] i = (if pat = [] then Some i else None)"
| "find_from pat (c # cs) i =
     (if take (length pat) (c # cs) = pat then Some i else find_from pat cs (Suc i))"

definition find_str :: "string \<Rightarrow> string \<Rightarrow> nat option" where
  "find_str s pat = find_from pat s 0"

definition trim :: "string \<Rightarrow> string" where
  "trim v =
     (let ws = (\<lambda>c. c \<in> set [CHR '' '', CHR 0x09, CHR 0x0D, CHR 0x0A])
      in rev (dropWhile ws (rev (dropWhile ws v))))"

definition stripComments :: "string \<Rightarrow> string" where
  "stripComments line =
     (let slashPos = find_str line ''//'';
          hashPos = find_str line ''#'';
          cutPos = min (case slashPos of None \<Rightarrow> length line | Some p \<Rightarrow> p)
                       (case hashPos of None \<Rightarrow> length line | Some p \<Rightarrow> p)
      in take cutPos line)"

lemma length_dropWhile_Cons:
  "dropWhile P xs = c # rest \<Longrightarrow> length rest < length xs"
  by (metis length_dropWhile_le length_Cons Suc_le_eq)

text \<open>
  \<^verbatim>\<open>tokenizeLine\<close>: the loop over the index \<^verbatim>\<open>i\<close> becomes a recursion on the rest of
  the line. Braces are tokens of their own, a double quote opens a token that runs to the
  next double quote (or the end of the line), anything else runs to the next space or brace.
\<close>

function tokenizeLine :: "string \<Rightarrow> string list" where
  "tokenizeLine line =
     (case dropWhile isspace line of
        [] \<Rightarrow> []
      | c # rest \<Rightarrow>
          if c = CHR ''{'' \<or> c = CHR ''}'' then [c] # tokenizeLine rest
          else if c = CHR 0x22 then
            takeWhile (\<lambda>x. x \<noteq> CHR 0x22) rest
              # tokenizeLine (drop 1 (dropWhile (\<lambda>x. x \<noteq> CHR 0x22) rest))
          else
            (c # takeWhile (\<lambda>x. \<not> isspace x \<and> x \<noteq> CHR ''{'' \<and> x \<noteq> CHR ''}'') rest)
              # tokenizeLine
                  (dropWhile (\<lambda>x. \<not> isspace x \<and> x \<noteq> CHR ''{'' \<and> x \<noteq> CHR ''}'') rest))"
  by pat_completeness auto
termination
proof (relation "measure length", goal_cases)
  case 1
  show ?case by simp
next
  case (2 line c rest)
  then show ?case
    by (simp add: length_dropWhile_Cons)
next
  case (3 line c rest)
  have "length (drop 1 (dropWhile (\<lambda>x. x \<noteq> CHR 0x22) rest)) \<le> length rest"
    using length_dropWhile_le [of "\<lambda>x. x \<noteq> CHR 0x22" rest] by simp
  then show ?case
    using length_dropWhile_Cons [OF 3(1)] by simp
next
  case (4 line c rest)
  have "length (dropWhile (\<lambda>x. \<not> isspace x \<and> x \<noteq> CHR ''{'' \<and> x \<noteq> CHR ''}'') rest)
          \<le> length rest"
    by (rule length_dropWhile_le)
  then show ?case
    using length_dropWhile_Cons [OF 4(1)] by simp
qed

declare tokenizeLine.simps [simp del]

definition toLower :: "string \<Rightarrow> string" where
  "toLower v = map tolower v"

definition isRectanglesKeyword :: "string \<Rightarrow> bool" where
  "isRectanglesKeyword v =
     (let lower = toLower v in lower = ''rectangles'' \<or> lower = ''rectangle'')"

text \<open>The scope stack grows at the back; the search runs from the back to the front.\<close>

definition currentTextureName :: "string list \<Rightarrow> string option" where
  "currentTextureName stack = find (\<lambda>s. s \<noteq> [] \<and> \<not> isRectanglesKeyword s) (rev stack)"

subsection \<open>Numbers\<close>

definition digit_val :: "char \<Rightarrow> int" where
  "digit_val c = int (length (takeWhile (\<lambda>d. d \<noteq> c) ''0123456789''))"

definition digits_val :: "string \<Rightarrow> int" where
  "digits_val ds = foldl (\<lambda>acc d. 10 * acc + digit_val d) 0 ds"

text \<open>
  One match of the regular expression \<^verbatim>\<open>[-+]?\d*\.?\d+\<close> at the start of a string, with
  the matched text and what follows it. The quantifiers are greedy and backtrack: the
  digits are followed by a point only when a digit follows the point, otherwise the match
  is the run of digits alone (its last digit serving the final \<^verbatim>\<open>\d+\<close>); a sign that
  no number follows is not matched.
\<close>

definition match_unsigned :: "string \<Rightarrow> (string \<times> string) option" where
  "match_unsigned s =
     (let ds = takeWhile isdigit s; r = dropWhile isdigit s
      in case r of
           c # r' \<Rightarrow>
             if c = CHR ''.'' \<and> takeWhile isdigit r' \<noteq> []
             then Some (ds @ [c] @ takeWhile isdigit r', dropWhile isdigit r')
             else if ds \<noteq> [] then Some (ds, r) else None
         | [] \<Rightarrow> if ds \<noteq> [] then Some (ds, r) else None)"

definition match_number :: "string \<Rightarrow> (string \<times> string) option" where
  "match_number s =
     (case s of
        c # s' \<Rightarrow>
          if c = CHR ''-'' \<or> c = CHR ''+'' then
            (case match_unsigned s' of
               Some (m, r) \<Rightarrow> Some (c # m, r)
             | None \<Rightarrow> match_unsigned s)
          else match_unsigned s
      | [] \<Rightarrow> None)"

lemma match_unsigned_shorter:
  assumes a: "match_unsigned s = Some (m, r)"
  shows "length r < length s"
proof -
  have le: "\<And>t. length (dropWhile isdigit t) \<le> length t"
    by (rule length_dropWhile_le)
  show ?thesis
  proof (cases "dropWhile isdigit s")
    case Nil
    with a have "takeWhile isdigit s \<noteq> []" and "r = []"
      by (auto simp: match_unsigned_def Let_def split: if_splits)
    then show ?thesis by (cases s) auto
  next
    case (Cons c r')
    have lr': "length r' < length s"
      using Cons le [of s] by simp
    show ?thesis
    proof (cases "c = CHR ''.'' \<and> takeWhile isdigit r' \<noteq> []")
      case True
      with a Cons have "r = dropWhile isdigit r'"
        by (auto simp: match_unsigned_def Let_def)
      then show ?thesis using le [of r'] lr' by simp
    next
      case False
      with a Cons have "takeWhile isdigit s \<noteq> []" and "r = dropWhile isdigit s"
        by (auto simp: match_unsigned_def Let_def split: if_splits)
      then show ?thesis
        by (cases s) (auto split: if_splits simp: le less_Suc_eq_le)
    qed
  qed
qed

lemma match_number_shorter: "match_number s = Some (m, r) \<Longrightarrow> length r < length s"
  by (cases s)
    (auto simp: match_number_def split: if_splits option.splits
          dest!: match_unsigned_shorter)

text \<open>
  The matches a \<^verbatim>\<open>std::sregex_iterator\<close> yields: the leftmost match, then the search
  goes on behind it.
\<close>

function regex_matches :: "string \<Rightarrow> string list" where
  "regex_matches s =
     (if s = [] then []
      else case match_number s of
             Some (m, r) \<Rightarrow> m # regex_matches r
           | None \<Rightarrow> regex_matches (tl s))"
  by pat_completeness auto
termination
  by (relation "measure length") (auto dest: match_number_shorter)

declare regex_matches.simps [simp del]

datatype stof_error = invalid_argument | out_of_range

text \<open>
  \<^verbatim>\<open>strtof\<close> on the decimal forms: leading white space, a sign, digits with an optional
  point, and an exponent when digits follow the \<^verbatim>\<open>e\<close>; the value of the longest such
  prefix, or nothing when there is no digit. The hexadecimal, infinity and NaN spellings
  are left out.
\<close>

definition strtof_exponent :: "string \<Rightarrow> int" where
  "strtof_exponent s =
     (case s of
        c # r \<Rightarrow>
          if c = CHR ''e'' \<or> c = CHR ''E'' then
            (case r of
               d # r' \<Rightarrow>
                 if d = CHR ''-'' then - digits_val (takeWhile isdigit r')
                 else if d = CHR ''+'' then digits_val (takeWhile isdigit r')
                 else digits_val (takeWhile isdigit r)
             | [] \<Rightarrow> 0)
          else 0
      | [] \<Rightarrow> 0)"

definition strtof :: "string \<Rightarrow> rat option" where
  "strtof s =
     (let s1 = dropWhile isspace s;
          neg = (case s1 of c # _ \<Rightarrow> c = CHR ''-'' | [] \<Rightarrow> False);
          s2 = (case s1 of
                  c # r \<Rightarrow> if c = CHR ''-'' \<or> c = CHR ''+'' then r else s1
                | [] \<Rightarrow> []);
          ip = takeWhile isdigit s2;
          s3 = dropWhile isdigit s2;
          fp = (case s3 of
                  c # r \<Rightarrow> if c = CHR ''.'' then takeWhile isdigit r else []
                | [] \<Rightarrow> []);
          s4 = (case s3 of
                  c # r \<Rightarrow> if c = CHR ''.'' then dropWhile isdigit r else s3
                | [] \<Rightarrow> [])
      in if ip = [] \<and> fp = [] then None
         else
           (let m = of_int (digits_val (ip @ fp)) / 10 ^ length fp;
                e = strtof_exponent s4;
                v = (if 0 \<le> e then m * 10 ^ nat e else m / 10 ^ nat (- e))
            in Some (if neg then - v else v)))"

text \<open>
  The binary exponent of a positive number \<open>a\<close> is the \<open>e\<close> with
  \<open>2 ^ e \<le> a < 2 ^ (e + 1)\<close>.
\<close>

function log2_floor :: "int \<Rightarrow> int" where
  "log2_floor n = (if n < 2 then 0 else 1 + log2_floor (n div 2))"
  by pat_completeness auto

termination
proof (relation "measure nat")
  show "wf (measure nat)"
    by simp
next
  fix n :: int
  assume "\<not> n < 2"
  then have "0 < n" "n div 2 < n"
    by simp_all
  then show "(n div 2, n) \<in> measure nat"
    by simp
qed

declare log2_floor.simps [simp del]

definition pow2 :: "int \<Rightarrow> rat" where
  "pow2 e = (if 0 \<le> e then 2 ^ nat e else 1 / 2 ^ nat (- e))"

definition binary_exponent :: "rat \<Rightarrow> int" where
  "binary_exponent a =
     (if 1 \<le> a then log2_floor \<lfloor>a\<rfloor>
      else - (1 + log2_floor (\<lceil>1 / a\<rceil> - 1)))"

text \<open>
  Rounding to the nearest binary32 value, ties to the even significand: a significand of
  24 bits at the binary exponent of the value, which is not taken below \<open>- 126\<close>,
  where the subnormal numbers begin.
\<close>

definition round_half_even :: "rat \<Rightarrow> int" where
  "round_half_even x =
     (let f = \<lfloor>x\<rfloor>; d = x - of_int f
      in if d < 1 / 2 then f
         else if 1 / 2 < d then f + 1
         else if even f then f else f + 1)"

definition round_binary32 :: "rat \<Rightarrow> rat" where
  "round_binary32 v =
     (if v = 0 then 0
      else
        (let a = \<bar>v\<bar>;
             e = max (- 126) (binary_exponent a);
             ulp = pow2 (e - 23);
             r = of_int (round_half_even (a / ulp)) * ulp
         in if v < 0 then - r else r))"

text \<open>
  A value overflows binary32 when it rounds to infinity, that is from the midpoint
  between the largest float \<open>2 ^ 128 - 2 ^ 104\<close> and \<open>2 ^ 128\<close> on. Whether a result
  below the normal numbers is a range error is left to the implementation of
  \<^verbatim>\<open>strtof\<close>; it is one here where the result is not exact: the value is not zero,
  lies below the least normal number \<open>2 ^ - 126\<close> in magnitude and is not a binary32
  value itself.
\<close>

definition float_overflow :: "rat \<Rightarrow> bool" where
  "float_overflow v = (2 ^ 128 - 2 ^ 103 \<le> \<bar>v\<bar>)"

definition float_underflow :: "rat \<Rightarrow> bool" where
  "float_underflow v = (v \<noteq> 0 \<and> \<bar>v\<bar> < 1 / 2 ^ 126 \<and> round_binary32 v \<noteq> v)"

text \<open>
  \<^verbatim>\<open>std::stof\<close> throws \<^verbatim>\<open>std::invalid_argument\<close> when nothing converts and
  \<^verbatim>\<open>std::out_of_range\<close> when \<^verbatim>\<open>strtof\<close> reports a range error; otherwise it returns
  the rounded value.
\<close>

definition stof :: "string \<Rightarrow> stof_error + rat" where
  "stof s =
     (case strtof s of
        None \<Rightarrow> Inl invalid_argument
      | Some v \<Rightarrow>
          if float_overflow v \<or> float_underflow v then Inl out_of_range
          else Inr (round_binary32 v))"

text \<open>
  Modelled from the spec: \<^verbatim>\<open>kdl::str_to_float\<close> (kd/string_utils.h) is not among the
  sources. The parser uses it where a token may or may not be a number (a weight "is read
  from a \<^verbatim>\<open>weight=\<close> token or a \<^verbatim>\<open>weight <value>\<close> pair, defaulting to 1.0"): it is
  the conversion of \<^verbatim>\<open>std::stof\<close> with both failures turned into an empty optional.
\<close>

definition str_to_float :: "string \<Rightarrow> rat option" where
  "str_to_float s = (case stof s of Inl _ \<Rightarrow> None | Inr v \<Rightarrow> Some v)"

text \<open>\<^verbatim>\<open>parseNumbers\<close>: an exception of \<^verbatim>\<open>std::stof\<close> leaves the loop and the function.\<close>

fun parseNumbers_values :: "string list \<Rightarrow> stof_error + rat list" where
  "parseNumbers_values [] = Inr []"
| "parseNumbers_values (m # ms) =
     (case stof m of
        Inl e \<Rightarrow> Inl e
      | Inr v \<Rightarrow> (case parseNumbers_values ms of Inl e \<Rightarrow> Inl e | Inr vs \<Rightarrow> Inr (v # vs)))"

definition parseNumbers :: "string \<Rightarrow> stof_error + rat list" where
  "parseNumbers line = parseNumbers_values (regex_matches line)"

definition parseWeightToken :: "string \<Rightarrow> rat option" where
  "parseWeightToken token =
     (case find_str token ''='' of
        None \<Rightarrow> None
      | Some pos \<Rightarrow>
          (let key = toLower (take pos token)
           in if key \<noteq> ''weight'' \<and> key \<noteq> ''w'' then None
              else str_to_float (drop (pos + 1) token)))"

text \<open>\<^verbatim>\<open>parseWeight\<close>: the loop over the tokens, the token at \<^verbatim>\<open>i + 1\<close> being the head of the rest.\<close>

fun parseWeight :: "string list \<Rightarrow> rat" where
  "parseWeight [] = 1"
| "parseWeight (t # ts) =
     (case parseWeightToken t of
        Some v \<Rightarrow> v
      | None \<Rightarrow>
          (let lower = toLower t
           in if (lower = ''weight'' \<or> lower = ''w'') \<and> ts \<noteq> [] then
                (case str_to_float (hd ts) of
                   Some v \<Rightarrow> v
                 | None \<Rightarrow> parseWeight ts)
              else parseWeight ts))"

definition hasToken :: "string list \<Rightarrow> string \<Rightarrow> bool" where
  "hasToken tokens token = list_ex (\<lambda>v. toLower v = token) tokens"

subsection \<open>The parser\<close>

record HotspotRect =
  rect_min :: "rat \<times> rat"
  rect_size :: "rat \<times> rat"
  tileU :: bool
  tileV :: bool
  weight :: rat

text \<open>
  \<^verbatim>\<open>HotspotRectMap\<close> is an unordered map from texture names to vectors of rects;
  \<^verbatim>\<open>result[name].push_back(rect)\<close> creates the entry when the name is new.
\<close>

type_synonym HotspotRectMap = "string \<rightharpoonup> HotspotRect list"

definition push_rect :: "HotspotRectMap \<Rightarrow> string \<Rightarrow> HotspotRect \<Rightarrow> HotspotRectMap" where
  "push_rect m name rect = m(name \<mapsto> (case m name of None \<Rightarrow> [] | Some rs \<Rightarrow> rs) @ [rect])"

datatype 'a Result = Success 'a | Error string

record parse_state =
  ps_result :: HotspotRectMap
  scopeStack :: "string list"
  pendingBlockName :: "string option"

text \<open>\<^verbatim>\<open>std::getline\<close> until the stream is exhausted: the lines between line feeds.\<close>

function getlines :: "string \<Rightarrow> string list" where
  "getlines s =
     (if s = [] then []
      else takeWhile (\<lambda>c. c \<noteq> CHR 0x0A) s
             # (case dropWhile (\<lambda>c. c \<noteq> CHR 0x0A) s of
                  [] \<Rightarrow> []
                | _ # r \<Rightarrow> getlines r))"
  by pat_completeness auto
termination
  by (relation "measure length") (auto dest: length_dropWhile_Cons)

declare getlines.simps [simp del]

text \<open>The loop over the tokens of a line that opens and closes scopes.\<close>

definition scan_braces ::
  "string list \<Rightarrow> string list \<times> string option \<Rightarrow> string list \<times> string option" where
  "scan_braces tokens st =
     fold (\<lambda>i (stack, pending).
             if tokens ! i = ''{'' then
               ((if 0 < i then stack @ [tokens ! (i - 1)]
                 else case pending of Some p \<Rightarrow> stack @ [p] | None \<Rightarrow> stack @ [[]]),
                None)
             else if tokens ! i = ''}'' \<and> stack \<noteq> [] then (butlast stack, pending)
             else (stack, pending))
          [0..<length tokens] st"

text \<open>The body of the loop over the lines; \<open>Inl\<close> is an exception leaving the function.\<close>

definition parse_line ::
  "string option \<Rightarrow> parse_state \<Rightarrow> string \<Rightarrow> stof_error + parse_state" where
  "parse_line defaultTextureName st rawLine =
     (let cleanedLine = trim (stripComments rawLine)
      in if cleanedLine = [] then Inr st
         else
           (let tokens = tokenizeLine cleanedLine;
                (stack, pending) = scan_braces tokens (scopeStack st, pendingBlockName st);
                pending' =
                  (if length tokens = 1 \<and> hd tokens \<noteq> ''{'' \<and> hd tokens \<noteq> ''}''
                      \<and> str_to_float (hd tokens) = None
                   then Some (hd tokens) else pending);
                st' = st\<lparr>scopeStack := stack, pendingBlockName := pending'\<rparr>;
                textureName =
                  (case currentTextureName stack of
                     None \<Rightarrow> defaultTextureName
                   | Some n \<Rightarrow> Some n)
            in case textureName of
                 None \<Rightarrow> Inr st'
               | Some name \<Rightarrow>
                   (case parseNumbers cleanedLine of
                      Inl e \<Rightarrow> Inl e
                    | Inr values \<Rightarrow>
                        if length values < 4 then Inr st'
                        else
                          (let rectMin = (values ! 0, values ! 1);
                               rectSize = (values ! 2, values ! 3)
                           in if fst rectSize \<le> 0 \<or> snd rectSize \<le> 0 then Inr st'
                              else
                                (let tu = hasToken tokens ''tileu'' \<or> hasToken tokens ''tile_u''
                                       \<or> hasToken tokens ''repeatu''
                                       \<or> hasToken tokens ''repeat_u''
                                       \<or> hasToken tokens ''tilex'' \<or> hasToken tokens ''tile-h''
                                       \<or> hasToken tokens ''tileh'';
                                     tv = hasToken tokens ''tilev'' \<or> hasToken tokens ''tile_v''
                                       \<or> hasToken tokens ''repeatv''
                                       \<or> hasToken tokens ''repeat_v''
                                       \<or> hasToken tokens ''tiley'' \<or> hasToken tokens ''tile-v'';
                                     w = parseWeight tokens;
                                     rect = \<lparr>rect_min = rectMin, rect_size = rectSize,
                                             tileU = tu, tileV = tv, weight = w\<rparr>
                                 in Inr (st'\<lparr>ps_result :=
                                               push_rect (ps_result st') name rect\<rparr>))))))"

fun parse_lines ::
  "string option \<Rightarrow> parse_state \<Rightarrow> string list \<Rightarrow> stof_error + parse_state" where
  "parse_lines d st [] = Inr st"
| "parse_lines d st (l # ls) =
     (case parse_line d st l of Inl e \<Rightarrow> Inl e | Inr st' \<Rightarrow> parse_lines d st' ls)"

text \<open>
  The outcome is either an exception that leaves the function (\<open>Inl\<close>) or the returned
  \<^verbatim>\<open>Result\<close>; the only \<^verbatim>\<open>return\<close> of the function returns the mapping.
\<close>

definition parseHotspotRectFile ::
  "string \<Rightarrow> string option \<Rightarrow> stof_error + HotspotRectMap Result" where
  "parseHotspotRectFile contents defaultTextureName =
     (case parse_lines defaultTextureName
             \<lparr>ps_result = Map.empty, scopeStack = [], pendingBlockName = None\<rparr>
             (getlines contents) of
        Inl e \<Rightarrow> Inl e
      | Inr st \<Rightarrow> Inr (Success (ps_result st)))"

section \<open>Map tokenizer (io/StandardMapParser.cpp)\<close>

datatype QuakeMapToken =
  Integer | Decimal | String | OParenthesis | CParenthesis | OBrace | CBrace
  | OBracket | CBracket | Comment | Eol | Eof

text \<open>
  A token is built from its type, the two pointers that delimit its text, the offset of
  the first, and the line and column at which the call started. The model keeps the text
  between the pointers instead of the pointers.
\<close>

record Token =
  tok_type :: QuakeMapToken
  tok_data :: string
  tok_position :: nat
  tok_line :: nat
  tok_column :: nat

subsection \<open>The tokenizer base class\<close>

text \<open>
  Modelled from the spec: the base class \<^verbatim>\<open>Tokenizer\<close> (io/Tokenizer.h) is not among
  the sources, so the primitives that \<^verbatim>\<open>emitToken\<close> calls are written here from the
  spec's description of the tokenizer: it tracks "line/column/byte offset"; white space is
  blank, tab, line feed and carriage return; an integer is tried before a decimal and
  either is a number only when the end of the input or a delimiter follows it; a bare
  word is "read until whitespace"; a carriage return "folds into line-feed handling";
  a quoted string has "escape handling" and is "terminated by the closing quote", and also
  where an escaped quote stands before one of the listed characters or where the input
  ends. The state is the read position with its line and column and the escape flag; a
  character read at or behind the end of the input is the null character.
\<close>

record TokenizerState =
  m_cur :: nat
  m_line :: nat
  m_column :: nat
  m_escaped :: bool

definition Whitespace :: string where
  "Whitespace = [CHR '' '', CHR 0x09, CHR 0x0A, CHR 0x0D]"

definition eof :: "string \<Rightarrow> TokenizerState \<Rightarrow> bool" where
  "eof input st = (length input \<le> m_cur st)"

definition curChar :: "string \<Rightarrow> TokenizerState \<Rightarrow> char" where
  "curChar input st = (if eof input st then CHR 0x00 else input ! m_cur st)"

definition lookAhead :: "string \<Rightarrow> TokenizerState \<Rightarrow> nat \<Rightarrow> char" where
  "lookAhead input st n =
     (if m_cur st + n < length input then input ! (m_cur st + n) else CHR 0x00)"

text \<open>
  One step forward. A line ends at a line feed or at a carriage return that no line feed
  follows; the backslash toggles the escape flag. Every call below is made where the
  input has not ended.
\<close>

definition advance :: "string \<Rightarrow> TokenizerState \<Rightarrow> TokenizerState" where
  "advance input st =
     (let c = curChar input st
      in if c = CHR 0x0D \<and> lookAhead input st 1 = CHR 0x0A then
           st\<lparr>m_cur := m_cur st + 1, m_column := m_column st + 1\<rparr>
         else if c = CHR 0x0D \<or> c = CHR 0x0A then
           st\<lparr>m_cur := m_cur st + 1, m_line := m_line st + 1, m_column := 1,
              m_escaped := False\<rparr>
         else
           st\<lparr>m_cur := m_cur st + 1, m_column := m_column st + 1,
              m_escaped := (if c = CHR 0x5C then \<not> m_escaped st else False)\<rparr>)"

lemma m_cur_advance [simp]: "m_cur (advance input st) = m_cur st + 1"
  by (simp add: advance_def Let_def)

text \<open>The loop \<^verbatim>\<open>while (!eof() && P(curChar())) advance();\<close> shared by the readers.\<close>

function advance_while :: "(char \<Rightarrow> bool) \<Rightarrow> string \<Rightarrow> TokenizerState \<Rightarrow> TokenizerState" where
  "advance_while P input st =
     (if \<not> eof input st \<and> P (curChar input st)
      then advance_while P input (advance input st) else st)"
  by pat_completeness auto
termination
  by (relation "measure (\<lambda>(P, input, st). length input - m_cur st)") (auto simp: eof_def)

declare advance_while.simps [simp del]

definition isDigit :: "char \<Rightarrow> bool" where
  "isDigit c = (c \<in> set ''0123456789'')"

definition discardUntil :: "string \<Rightarrow> string \<Rightarrow> TokenizerState \<Rightarrow> TokenizerState" where
  "discardUntil delims = advance_while (\<lambda>c. c \<notin> set delims)"

definition discardWhile :: "string \<Rightarrow> string \<Rightarrow> TokenizerState \<Rightarrow> TokenizerState" where
  "discardWhile allow = advance_while (\<lambda>c. c \<in> set allow)"

definition readDigits :: "string \<Rightarrow> TokenizerState \<Rightarrow> TokenizerState" where
  "readDigits = advance_while isDigit"

text \<open>
  The readers answer with the state behind what they read, whose position is the end
  pointer they return, or with nothing (a null pointer) and the state as it was.
\<close>

definition readInteger :: "string \<Rightarrow> string \<Rightarrow> TokenizerState \<Rightarrow> TokenizerState option" where
  "readInteger delims input st =
     (if curChar input st \<noteq> CHR ''+'' \<and> curChar input st \<noteq> CHR ''-''
         \<and> \<not> isDigit (curChar input st) then None
      else
        (let st1 = (if curChar input st = CHR ''+'' \<or> curChar input st = CHR ''-''
                    then advance input st else st);
             st2 = readDigits input st1
         in if eof input st2 \<or> curChar input st2 \<in> set delims then Some st2 else None))"

definition readDecimal :: "string \<Rightarrow> string \<Rightarrow> TokenizerState \<Rightarrow> TokenizerState option" where
  "readDecimal delims input st =
     (if curChar input st \<noteq> CHR ''+'' \<and> curChar input st \<noteq> CHR ''-''
         \<and> curChar input st \<noteq> CHR ''.'' \<and> \<not> isDigit (curChar input st) then None
      else
        (let st1 = (if curChar input st \<noteq> CHR ''.''
                    then readDigits input (advance input st) else st);
             st2 = (if curChar input st1 = CHR ''.''
                    then readDigits input (advance input st1) else st1);
             st3 = (if curChar input st2 = CHR ''e'' then
                      (let st' = advance input st2
                       in if curChar input st' = CHR ''+'' \<or> curChar input st' = CHR ''-''
                             \<or> isDigit (curChar input st')
                          then readDigits input (advance input st') else st')
                    else st2)
         in if eof input st3 \<or> curChar input st3 \<in> set delims then Some st3 else None))"

definition readUntil :: "string \<Rightarrow> string \<Rightarrow> TokenizerState \<Rightarrow> TokenizerState" where
  "readUntil delims input st =
     (if \<not> eof input st then advance_while (\<lambda>c. c \<notin> set delims) input (advance input st)
      else st)"

definition isEscaped :: "string \<Rightarrow> TokenizerState \<Rightarrow> bool" where
  "isEscaped input st = (\<not> eof input st \<and> m_escaped st \<and> curChar input st = CHR 0x22)"

function readQuotedString_scan ::
  "char \<Rightarrow> string \<Rightarrow> string \<Rightarrow> TokenizerState \<Rightarrow> TokenizerState" where
  "readQuotedString_scan delim hackDelims input st =
     (if \<not> eof input st \<and> (curChar input st \<noteq> delim \<or> isEscaped input st) then
        (if hackDelims \<noteq> [] \<and> curChar input st = CHR 0x22 \<and> isEscaped input st
            \<and> lookAhead input st 1 \<in> set hackDelims
         then st\<lparr>m_escaped := False\<rparr>
         else readQuotedString_scan delim hackDelims input (advance input st))
      else st)"
  by pat_completeness auto
termination
  by (relation "measure (\<lambda>(d, h, input, st). length input - m_cur st)") (auto simp: eof_def)

declare readQuotedString_scan.simps [simp del]

definition readQuotedString ::
  "char \<Rightarrow> string \<Rightarrow> string \<Rightarrow> TokenizerState \<Rightarrow> nat \<times> TokenizerState" where
  "readQuotedString delim hackDelims input st =
     (let st1 = readQuotedString_scan delim hackDelims input st
      in if eof input st1 then (m_cur st1, st1) else (m_cur st1, advance input st1))"

lemma advance_while_mono: "m_cur st \<le> m_cur (advance_while P input st)"
proof (induction P input st rule: advance_while.induct)
  case (1 P input st)
  show ?case
  proof (cases "\<not> eof input st \<and> P (curChar input st)")
    case True
    then have "m_cur (advance input st) \<le> m_cur (advance_while P input st)"
      using 1 by (simp add: advance_while.simps [of P input st])
    then show ?thesis by simp
  next
    case False
    then show ?thesis by (auto simp: advance_while.simps [of P input st])
  qed
qed

lemma advance_while_progress:
  "\<not> eof input st \<Longrightarrow> P (curChar input st) \<Longrightarrow> m_cur st < m_cur (advance_while P input st)"
  using advance_while_mono [of "advance input st" P input]
  by (simp add: advance_while.simps [of P input st])

subsection \<open>The map tokenizer\<close>

definition NumberDelim :: string where
  "NumberDelim = Whitespace @ '')''"

text \<open>The text between two positions of the input.\<close>

definition slice :: "string \<Rightarrow> nat \<Rightarrow> nat \<Rightarrow> string" where
  "slice input b e = take (e - b) (drop b input)"

definition mkToken :: "QuakeMapToken \<Rightarrow> string \<Rightarrow> nat \<Rightarrow> nat \<Rightarrow> TokenizerState \<Rightarrow> Token" where
  "mkToken t input b e start =
     \<lparr>tok_type = t, tok_data = slice input b e, tok_position = b,
      tok_line = m_line start, tok_column = m_column start\<rparr>"

text \<open>
  \<^verbatim>\<open>QuakeMapTokenizer::emitToken\<close>. A \<^verbatim>\<open>break\<close> out of the switch goes round the loop
  again, which is the recursive call; the carriage return and line feed cases fall
  through into the white space case when end-of-line tokens are skipped. The result is
  the token with the state behind it. The final \<^verbatim>\<open>throw\<close> of the default case is behind
  \<^verbatim>\<open>readUntil\<close>, which never returns a null pointer, so no call raises the exception and
  the error side of the result stays unused.
\<close>

datatype ParserException = ParserException nat nat string

function emitToken ::
  "bool \<Rightarrow> string \<Rightarrow> TokenizerState \<Rightarrow> ParserException + (Token \<times> TokenizerState)" where
  "emitToken skipEol input st =
     (if eof input st then
        Inr (\<lparr>tok_type = Eof, tok_data = [], tok_position = length input,
              tok_line = m_line st, tok_column = m_column st\<rparr>, st)
      else
        (let c = m_cur st; ch = input ! c
         in if ch = CHR ''/'' then
              (if curChar input (advance input st) = CHR ''/'' then
                 (if curChar input (advance input (advance input st)) = CHR ''/''
                     \<and> lookAhead input (advance input (advance input st)) 1 = CHR '' ''
                  then Inr (mkToken Comment input c (c + 3) st,
                            advance input (advance input (advance input st)))
                  else emitToken skipEol input
                         (discardUntil [CHR 0x0A, CHR 0x0D] input
                            (advance input (advance input st))))
               else emitToken skipEol input (advance input st))
            else if ch = CHR '';'' then
              emitToken skipEol input
                (discardUntil [CHR 0x0A, CHR 0x0D] input (advance input st))
            else if ch = CHR ''{'' then
              Inr (mkToken OBrace input c (c + 1) st, advance input st)
            else if ch = CHR ''}'' then
              Inr (mkToken CBrace input c (c + 1) st, advance input st)
            else if ch = CHR ''('' then
              Inr (mkToken OParenthesis input c (c + 1) st, advance input st)
            else if ch = CHR '')'' then
              Inr (mkToken CParenthesis input c (c + 1) st, advance input st)
            else if ch = CHR ''['' then
              Inr (mkToken OBracket input c (c + 1) st, advance input st)
            else if ch = CHR '']'' then
              Inr (mkToken CBracket input c (c + 1) st, advance input st)
            else if ch = CHR 0x22 then
              (case readQuotedString (CHR 0x22) [CHR 0x0A, CHR ''}''] input (advance input st) of
                 (e, st') \<Rightarrow> Inr (mkToken String input (c + 1) e st, st'))
            else if ch = CHR 0x0D \<or> ch = CHR 0x0A \<or> ch = CHR '' '' \<or> ch = CHR 0x09 then
              (if (ch = CHR 0x0D \<or> ch = CHR 0x0A) \<and> \<not> skipEol then
                 Inr (mkToken Eol input c (c + 1) st,
                      advance input
                        (if ch = CHR 0x0D \<and> lookAhead input st 1 = CHR 0x0A
                         then advance input st else st))
               else emitToken skipEol input
                      (discardWhile Whitespace input
                         (if ch = CHR 0x0D \<and> lookAhead input st 1 = CHR 0x0A
                          then advance input st else st)))
            else
              (case readInteger NumberDelim input st of
                 Some st' \<Rightarrow> Inr (mkToken Integer input c (m_cur st') st, st')
               | None \<Rightarrow>
                   (case readDecimal NumberDelim input st of
                      Some st' \<Rightarrow> Inr (mkToken Decimal input c (m_cur st') st, st')
                    | None \<Rightarrow>
                        (let st' = readUntil Whitespace input st
                         in Inr (mkToken String input c (m_cur st') st, st'))))))"
  by pat_completeness auto
termination
proof (relation "measure (\<lambda>(skipEol, input, st). length input - m_cur st)", goal_cases)
  case 1
  show ?case by simp
next
  case (2 skipEol input st c ch)
  then show ?case
    using advance_while_mono
      [of "advance input (advance input st)" "\<lambda>c. c \<notin> set [CHR 0x0A, CHR 0x0D]" input]
    by (simp add: eof_def discardUntil_def)
next
  case (3 skipEol input st c ch)
  then show ?case by (simp add: eof_def)
next
  case (4 skipEol input st c ch)
  then show ?case
    using advance_while_mono [of "advance input st" "\<lambda>c. c \<notin> set [CHR 0x0A, CHR 0x0D]" input]
    by (simp add: eof_def discardUntil_def)
next
  case (5 skipEol input st c ch)
  show ?case
  proof (cases "ch = CHR 0x0D \<and> lookAhead input st 1 = CHR 0x0A")
    case True
    then show ?thesis
      using 5 advance_while_mono [of "advance input st" "\<lambda>c. c \<in> set Whitespace" input]
      by (simp add: eof_def discardWhile_def)
  next
    case False
    have "\<not> eof input st" using 5 by simp
    moreover have "curChar input st \<in> set Whitespace"
      using 5 by (auto simp: curChar_def Whitespace_def)
    ultimately have "m_cur st < m_cur (advance_while (\<lambda>c. c \<in> set Whitespace) input st)"
      by (rule advance_while_progress)
    then show ?thesis
      using 5 False by (auto simp: eof_def discardWhile_def)
  qed
qed

declare emitToken.simps [simp del]

text \<open>The state of a fresh tokenizer, and the tokens of the first \<open>n\<close> calls.\<close>

definition initial :: TokenizerState where
  "initial = \<lparr>m_cur = 0, m_line = 1, m_column = 1, m_escaped = False\<rparr>"

fun emitTokens ::
  "nat \<Rightarrow> bool \<Rightarrow> string \<Rightarrow> TokenizerState \<Rightarrow> ParserException + Token list" where
  "emitTokens 0 skipEol input st = Inr []"
| "emitTokens (Suc n) skipEol input st =
     (case emitToken skipEol input st of
        Inl e \<Rightarrow> Inl e
      | Inr (t, st') \<Rightarrow>
          (case emitTokens n skipEol input st' of Inl e \<Rightarrow> Inl e | Inr ts \<Rightarrow> Inr (t # ts)))"

section \<open>Bezier patches (mdl/BezierPatch.cpp)\<close>

text \<open>
  Coordinates are the elements of a linear order (the order is what the bounds need). A
  control point is a vector of five numbers, its position followed by two texture
  coordinates; a control normal is a vector of three. The counts of a patch are numbers of
  type \<^verbatim>\<open>size_t\<close>, kept in the patch as the natural numbers they stand for. The
  constructor multiplies them in \<^verbatim>\<open>size_t\<close>, that is modulo \<open>2 ^ 64\<close>, and so do
  the accessors when they compute the index of a control point. The iterations of
  \<^verbatim>\<open>transform\<close> and of the evaluation are written with natural numbers: where the
  product of the counts is the number of control points, no index of theirs reaches
  \<open>2 ^ 64\<close>.
\<close>

type_synonym 'a vec3 = "'a \<times> 'a \<times> 'a"

record 'a Point =
  xyz :: "'a vec3"
  tex_u :: 'a
  tex_v :: 'a

subsection \<open>Bounds\<close>

record 'a bbox3 =
  bbox_min :: "'a vec3"
  bbox_max :: "'a vec3"

text \<open>
  Modelled from the spec: \<^verbatim>\<open>vm::bbox3d::builder\<close> (vm/bbox.h) is not among the
  sources. It accumulates the "derived AABB" of the points added to it: the first point
  is both corners, every further point lowers the minimal and raises the maximal corner
  where it lies outside. A builder to which no point was added has no bounds.
\<close>

definition merge_point :: "'a::linorder bbox3 \<Rightarrow> 'a vec3 \<Rightarrow> 'a bbox3" where
  "merge_point b p =
     (case (bbox_min b, bbox_max b, p) of
        ((lx, ly, lz), (hx, hy, hz), (x, y, z)) \<Rightarrow>
          \<lparr>bbox_min = (min lx x, min ly y, min lz z),
           bbox_max = (max hx x, max hy y, max hz z)\<rparr>)"

definition builder_add :: "'a vec3 \<Rightarrow> 'a::linorder bbox3 option \<Rightarrow> 'a bbox3 option" where
  "builder_add p b =
     (case b of
        None \<Rightarrow> Some \<lparr>bbox_min = p, bbox_max = p\<rparr>
      | Some bb \<Rightarrow> Some (merge_point bb p))"

definition computeBounds :: "'a::linorder Point list \<Rightarrow> 'a bbox3 option" where
  "computeBounds points = fold (\<lambda>point builder. builder_add (xyz point) builder) points None"

text \<open>
  The axis-aligned bounding box of a set of positions, as the specification has it: the
  least and the greatest value of each coordinate.
\<close>

definition vx :: "'a vec3 \<Rightarrow> 'a" where "vx p = fst p"
definition vy :: "'a vec3 \<Rightarrow> 'a" where "vy p = fst (snd p)"
definition vz :: "'a vec3 \<Rightarrow> 'a" where "vz p = snd (snd p)"

definition aabb :: "'a::linorder vec3 list \<Rightarrow> 'a bbox3" where
  "aabb ps =
     \<lparr>bbox_min = (Min (vx ` set ps), Min (vy ` set ps), Min (vz ` set ps)),
      bbox_max = (Max (vx ` set ps), Max (vy ` set ps), Max (vz ` set ps))\<rparr>"

subsection \<open>The patch\<close>

record 'a BezierPatch =
  m_pointRowCount :: nat
  m_pointColumnCount :: nat
  m_controlPoints :: "'a Point list"
  m_controlNormals :: "'a vec3 list"
  m_bounds :: "'a bbox3 option"
  m_materialName :: string
  m_surfaceContents :: int
  m_surfaceFlags :: int
  m_surfaceValue :: 'a

text \<open>
  A failed \<^verbatim>\<open>contract_pre\<close> ends the call. The size of a vector is compared with the
  product of the counts in \<^verbatim>\<open>size_t\<close>.
\<close>

datatype contract_violation = ContractViolation

definition makeBezierPatch ::
  "size_t \<Rightarrow> size_t \<Rightarrow> 'a::linorder Point list \<Rightarrow> string \<Rightarrow> int \<Rightarrow> int \<Rightarrow> 'a
     \<Rightarrow> 'a vec3 list \<Rightarrow> contract_violation + 'a BezierPatch" where
  "makeBezierPatch pointRowCount pointColumnCount controlPoints materialName
       surfaceContents surfaceFlags surfaceValue controlNormals =
     (if \<not> (2 < pointRowCount \<and> 2 < pointColumnCount) then Inl ContractViolation
      else if \<not> (pointRowCount mod 2 = 1 \<and> pointColumnCount mod 2 = 1)
        then Inl ContractViolation
      else if \<not> (length controlPoints = unat (pointRowCount * pointColumnCount))
        then Inl ContractViolation
      else if \<not> (controlNormals = []
                  \<or> length controlNormals = unat (pointRowCount * pointColumnCount))
        then Inl ContractViolation
      else Inr \<lparr>m_pointRowCount = unat pointRowCount,
                m_pointColumnCount = unat pointColumnCount,
                m_controlPoints = controlPoints, m_controlNormals = controlNormals,
                m_bounds = computeBounds controlPoints, m_materialName = materialName,
                m_surfaceContents = surfaceContents, m_surfaceFlags = surfaceFlags,
                m_surfaceValue = surfaceValue\<rparr>)"

text \<open>
  What the constructor's contract says of a patch, with the product of the counts taken
  in the natural numbers. It is true of the patch that the constructor returns unless the
  product of its counts wraps around.
\<close>

definition patch_invariant :: "'a BezierPatch \<Rightarrow> bool" where
  "patch_invariant p \<longleftrightarrow>
     2 < m_pointRowCount p \<and> 2 < m_pointColumnCount p
     \<and> m_pointRowCount p mod 2 = 1 \<and> m_pointColumnCount p mod 2 = 1
     \<and> length (m_controlPoints p) = m_pointRowCount p * m_pointColumnCount p
     \<and> (m_controlNormals p = []
        \<or> length (m_controlNormals p) = m_pointRowCount p * m_pointColumnCount p)"

definition surfaceRowCount :: "'a BezierPatch \<Rightarrow> nat" where
  "surfaceRowCount p = (m_pointRowCount p - 1) div 2"

definition surfaceColumnCount :: "'a BezierPatch \<Rightarrow> nat" where
  "surfaceColumnCount p = (m_pointColumnCount p - 1) div 2"

text \<open>
  The index of the control point in a row and a column, as the accessors compute it. An
  access to a vector at an index that is not below its size has no defined behaviour,
  which is an outcome of its own beside the failed contract.
\<close>

datatype failure = Violation contract_violation | UndefinedBehaviour

definition point_index :: "'a BezierPatch \<Rightarrow> nat \<Rightarrow> nat \<Rightarrow> nat" where
  "point_index p row col = (row * m_pointColumnCount p + col) mod 2 ^ 64"

text \<open>
  \<^verbatim>\<open>controlPoint(row, col)\<close> returns a reference to the control point, for reading in
  the one overload and for reading and writing in the other. The reference is the place
  of the control point in the vector; an assignment through the reference of the second
  overload, \<^verbatim>\<open>patch.controlPoint(row, col) = v\<close>, changes the vector at that place and
  nothing else of the patch.
\<close>

definition controlPoint_ref :: "'a BezierPatch \<Rightarrow> nat \<Rightarrow> nat \<Rightarrow> failure + nat" where
  "controlPoint_ref p row col =
     (if \<not> row < m_pointRowCount p then Inl (Violation ContractViolation)
      else if \<not> col < m_pointColumnCount p then Inl (Violation ContractViolation)
      else if \<not> point_index p row col < length (m_controlPoints p) then Inl UndefinedBehaviour
      else Inr (point_index p row col))"

definition assign_controlPoint ::
  "'a BezierPatch \<Rightarrow> nat \<Rightarrow> nat \<Rightarrow> 'a Point \<Rightarrow> failure + 'a BezierPatch" where
  "assign_controlPoint p row col v =
     (case controlPoint_ref p row col of
        Inl e \<Rightarrow> Inl e
      | Inr i \<Rightarrow> Inr (p\<lparr>m_controlPoints := (m_controlPoints p)[i := v]\<rparr>))"

definition setControlPoint ::
  "'a::linorder BezierPatch \<Rightarrow> nat \<Rightarrow> nat \<Rightarrow> 'a Point \<Rightarrow> failure + 'a BezierPatch" where
  "setControlPoint p row col controlPoint =
     (if \<not> row < m_pointRowCount p then Inl (Violation ContractViolation)
      else if \<not> col < m_pointColumnCount p then Inl (Violation ContractViolation)
      else if \<not> point_index p row col < length (m_controlPoints p) then Inl UndefinedBehaviour
      else
        (let cps = (m_controlPoints p)[point_index p row col := controlPoint]
         in Inr (p\<lparr>m_controlPoints := cps, m_bounds := computeBounds cps\<rparr>)))"

subsection \<open>Transformation\<close>

text \<open>
  The vector and matrix library \<^verbatim>\<open>vm\<close> is not among the sources; what
  \<^verbatim>\<open>transform\<close> uses of it is a parameter: the matrix type \<open>'m\<close> with the product of
  a matrix and a vector, \<^verbatim>\<open>strip_translation\<close>, \<^verbatim>\<open>invert\<close>, \<^verbatim>\<open>transpose\<close>,
  \<^verbatim>\<open>is_zero\<close>, \<^verbatim>\<open>normalize\<close>, the constant \<^verbatim>\<open>almost_zero\<close> and
  \<^verbatim>\<open>is_orientation_preserving_transform\<close>.
\<close>

record ('m, 'a) vm_ops =
  mat_times_vec :: "'m \<Rightarrow> 'a vec3 \<Rightarrow> 'a vec3"
  strip_translation :: "'m \<Rightarrow> 'm"
  invert :: "'m \<Rightarrow> 'm option"
  transpose_mat :: "'m \<Rightarrow> 'm"
  is_zero :: "'a vec3 \<Rightarrow> 'a \<Rightarrow> bool"
  normalize :: "'a vec3 \<Rightarrow> 'a vec3"
  almost_zero :: 'a
  is_orientation_preserving_transform :: "'m \<Rightarrow> bool"

text \<open>What the two iterations over the control points and the control normals do to one of them.\<close>

definition transform_point :: "('m, 'a) vm_ops \<Rightarrow> 'm \<Rightarrow> 'a Point \<Rightarrow> 'a Point" where
  "transform_point vm transformation controlPoint =
     controlPoint\<lparr>xyz := mat_times_vec vm transformation (xyz controlPoint)\<rparr>"

definition normalTransform :: "('m, 'a) vm_ops \<Rightarrow> 'm \<Rightarrow> 'm" where
  "normalTransform vm transformation =
     (let linearTransform = strip_translation vm transformation;
          inverted = invert vm linearTransform
      in case inverted of Some i \<Rightarrow> transpose_mat vm i | None \<Rightarrow> linearTransform)"

definition transform_normal :: "('m, 'a) vm_ops \<Rightarrow> 'm \<Rightarrow> 'a vec3 \<Rightarrow> 'a vec3" where
  "transform_normal vm nt controlNormal =
     (if \<not> is_zero vm controlNormal (almost_zero vm)
      then normalize vm (mat_times_vec vm nt controlNormal)
      else controlNormal)"

text \<open>\<^verbatim>\<open>std::swap\<close> of two elements of a vector.\<close>

definition swap_at :: "nat \<Rightarrow> nat \<Rightarrow> 'x list \<Rightarrow> 'x list" where
  "swap_at i j xs = xs[i := xs ! j, j := xs ! i]"

text \<open>
  The nested iteration that reverses the control points along the columns: for every column \<open>c\<close> of
  the left half and every row \<open>r\<close>, the points at \<open>(r, c)\<close> and \<open>(r, d)\<close> are swapped,
  and so are the normals when there are any.
\<close>

definition mirror_row_step ::
  "nat \<Rightarrow> nat \<Rightarrow> nat \<Rightarrow> nat \<Rightarrow> 'p list \<times> 'n list \<Rightarrow> 'p list \<times> 'n list" where
  "mirror_row_step cols c d r st =
     (case st of (cps, ns) \<Rightarrow>
        (swap_at (r * cols + c) (r * cols + d) cps,
         if ns \<noteq> [] then swap_at (r * cols + c) (r * cols + d) ns else ns))"

definition mirror_columns ::
  "nat \<Rightarrow> nat \<Rightarrow> 'p list \<times> 'n list \<Rightarrow> 'p list \<times> 'n list" where
  "mirror_columns rows cols st =
     fold (\<lambda>c. fold (mirror_row_step cols c (cols - c - 1)) [0..<rows]) [0..<cols div 2] st"

definition transform ::
  "('m, 'a::linorder) vm_ops \<Rightarrow> 'm \<Rightarrow> 'a BezierPatch \<Rightarrow> 'a BezierPatch" where
  "transform vm transformation p =
     (let cps = map (transform_point vm transformation) (m_controlPoints p);
          bounds = fold (\<lambda>controlPoint builder. builder_add (xyz controlPoint) builder) cps None;
          ns = (if m_controlNormals p \<noteq> [] then
                  map (transform_normal vm (normalTransform vm transformation))
                    (m_controlNormals p)
                else m_controlNormals p);
          (cps', ns') =
            (if \<not> is_orientation_preserving_transform vm transformation
             then mirror_columns (m_pointRowCount p) (m_pointColumnCount p) (cps, ns)
             else (cps, ns))
      in p\<lparr>m_controlPoints := cps', m_controlNormals := ns', m_bounds := bounds\<rparr>)"

text \<open>The same iteration on one vector, for the first \<open>j\<close> rows and the first \<open>k\<close> columns.\<close>

definition swap_rows :: "nat \<Rightarrow> nat \<Rightarrow> nat \<Rightarrow> nat \<Rightarrow> 'x list \<Rightarrow> 'x list" where
  "swap_rows cols c d j xs = fold (\<lambda>r. swap_at (r * cols + c) (r * cols + d)) [0..<j] xs"

definition swap_cols :: "nat \<Rightarrow> nat \<Rightarrow> nat \<Rightarrow> 'x list \<Rightarrow> 'x list" where
  "swap_cols rows cols k xs = fold (\<lambda>c. swap_rows cols c (cols - c - 1) rows) [0..<k] xs"

text \<open>The stored bounds are those of the control points as they are now.\<close>

definition bounds_current :: "'a::linorder BezierPatch \<Rightarrow> bool" where
  "bounds_current p \<longleftrightarrow> m_bounds p = Some (aabb (map xyz (m_controlPoints p)))"

subsection \<open>Evaluation\<close>

definition collectSurfaceControlPoints :: "'v list \<Rightarrow> nat \<Rightarrow> nat \<Rightarrow> nat \<Rightarrow> 'v list list" where
  "collectSurfaceControlPoints controlPoints pointColumnCount surfaceRow surfaceCol =
     (let rowOffset = 2 * surfaceRow; colOffset = 2 * surfaceCol
      in map (\<lambda>row.
                map (\<lambda>col.
                       controlPoints ! ((row + rowOffset) * pointColumnCount + col + colOffset))
                  [0..<3])
           [0..<3])"

definition collectAllSurfaceControlPoints ::
  "'v list \<Rightarrow> nat \<Rightarrow> nat \<Rightarrow> 'v list list list" where
  "collectAllSurfaceControlPoints controlPoints pointRowCount pointColumnCount =
     (let surfaceRowCount = (pointRowCount - 1) div 2;
          surfaceColumnCount = (pointColumnCount - 1) div 2
      in concat
           (map (\<lambda>surfaceRow.
                   map (\<lambda>surfaceCol.
                          collectSurfaceControlPoints controlPoints pointColumnCount
                            surfaceRow surfaceCol)
                     [0..<surfaceColumnCount])
              [0..<surfaceRowCount]))"

text \<open>
  \<^verbatim>\<open>vm::evaluate_quadratic_bezier_surface\<close> is not among the sources and is a parameter:
  it maps the three by three control points of a surface and the parameters \<open>u\<close> and
  \<open>v\<close> to a point. The parameters are exact fractions. The shift \<^verbatim>\<open>1u << n\<close> is the
  power of two; it is defined for \<open>n < 32\<close>.
\<close>

definition evaluatePatchGrid ::
  "('v list list \<Rightarrow> rat \<Rightarrow> rat \<Rightarrow> 'v) \<Rightarrow> 'v list \<Rightarrow> nat \<Rightarrow> nat \<Rightarrow> nat \<Rightarrow> 'v list" where
  "evaluatePatchGrid evaluate_quadratic_bezier_surface controlPoints pointRowCount
       pointColumnCount subdivisionsPerSurface =
     (let allSurfaceControlPoints =
            collectAllSurfaceControlPoints controlPoints pointRowCount pointColumnCount;
          quadsPerSurfaceSide = 2 ^ subdivisionsPerSurface;
          surfaceRowCount = (pointRowCount - 1) div 2;
          surfaceColumnCount = (pointColumnCount - 1) div 2;
          gridPointRowCount = surfaceRowCount * quadsPerSurfaceSide + 1;
          gridPointColumnCount = surfaceColumnCount * quadsPerSurfaceSide + 1
      in concat
           (map (\<lambda>gridRow.
                   (let surfaceRow =
                          (if 0 < gridRow then gridRow - 1 else gridRow) div quadsPerSurfaceSide;
                        v = of_nat (gridRow - surfaceRow * quadsPerSurfaceSide)
                              / of_nat quadsPerSurfaceSide
                    in map (\<lambda>gridCol.
                              (let surfaceCol =
                                     (if 0 < gridCol then gridCol - 1 else gridCol)
                                       div quadsPerSurfaceSide;
                                   u = of_nat (gridCol - surfaceCol * quadsPerSurfaceSide)
                                         / of_nat quadsPerSurfaceSide
                               in evaluate_quadratic_bezier_surface
                                    (allSurfaceControlPoints
                                       ! (surfaceRow * surfaceColumnCount + surfaceCol))
                                    u v))
                         [0..<gridPointColumnCount]))
              [0..<gridPointRowCount]))"

definition evaluate ::
  "('a Point list list \<Rightarrow> rat \<Rightarrow> rat \<Rightarrow> 'a Point) \<Rightarrow> 'a BezierPatch \<Rightarrow> nat
     \<Rightarrow> 'a Point list" where
  "evaluate ev p subdivisionsPerSurface =
     evaluatePatchGrid ev (m_controlPoints p) (m_pointRowCount p) (m_pointColumnCount p)
       subdivisionsPerSurface"

subsection \<open>An example patch\<close>

text \<open>
  A patch of three rows and five columns, that is of one by two surfaces, with integer
  coordinates; a scaling of the first axis as the transformation, whose sign decides the
  orientation; and a sampling function that picks the corner of a surface.
\<close>

definition example_patch :: "int BezierPatch" where
  "example_patch =
     \<lparr>m_pointRowCount = 3, m_pointColumnCount = 5,
      m_controlPoints =
        map (\<lambda>(r, c). \<lparr>xyz = (c, r, r * c), tex_u = c, tex_v = r\<rparr>)
          [(0, 0), (0, 1), (0, 2), (0, 3), (0, 4),
           (1, 0), (1, 1), (1, 2), (1, 3), (1, 4),
           (2, 0), (2, 1), (2, 2), (2, 3), (2, 4)],
      m_controlNormals =
        map (\<lambda>(r, c). (c, r, 1))
          [(0, 0), (0, 1), (0, 2), (0, 3), (0, 4),
           (1, 0), (1, 1), (1, 2), (1, 3), (1, 4),
           (2, 0), (2, 1), (2, 2), (2, 3), (2, 4)],
      m_bounds = Some \<lparr>bbox_min = (0, 0, 0), bbox_max = (4, 2, 8)\<rparr>,
      m_materialName = ''common/caulk'', m_surfaceContents = 0, m_surfaceFlags = 0,
      m_surfaceValue = 0\<rparr>"

text \<open>
  A patch of three rows whose column count is so large that the product of the counts
  wraps around: \<open>3 * 6148914691236517207 = 2 ^ 64 + 5\<close>, and the patch has five
  control points.
\<close>

definition wrapped_patch :: "int BezierPatch" where
  "wrapped_patch =
     \<lparr>m_pointRowCount = 3, m_pointColumnCount = 6148914691236517207,
      m_controlPoints =
        map (\<lambda>c. \<lparr>xyz = (c, 0, 0), tex_u = c, tex_v = 0\<rparr>) [0, 1, 2, 3, 4],
      m_controlNormals = [],
      m_bounds = Some \<lparr>bbox_min = (0, 0, 0), bbox_max = (4, 0, 0)\<rparr>,
      m_materialName = ''common/caulk'', m_surfaceContents = 0, m_surfaceFlags = 0,
      m_surfaceValue = 0\<rparr>"

definition example_vm :: "(int, int) vm_ops" where
  "example_vm =
     \<lparr>mat_times_vec = (\<lambda>m (x, y, z). (m * x, y, z)),
      strip_translation = (\<lambda>m. m),
      invert = (\<lambda>m. if m = 1 \<or> m = - 1 then Some m else None),
      transpose_mat = (\<lambda>m. m),
      is_zero = (\<lambda>(x, y, z) eps. \<bar>x\<bar> \<le> eps \<and> \<bar>y\<bar> \<le> eps \<and> \<bar>z\<bar> \<le> eps),
      normalize = (\<lambda>v. v),
      almost_zero = 0,
      is_orientation_preserving_transform = (\<lambda>m. 0 \<le> m)\<rparr>"

definition corner_sample :: "'v list list \<Rightarrow> rat \<Rightarrow> rat \<Rightarrow> 'v" where
  "corner_sample s u v = s ! (if v = 0 then 0 else 2) ! (if u = 0 then 0 else 2)"

section \<open>Brush geometry operations of the map (mdl/Map_Geometry.cpp)\<close>

text \<open>
  The map, its nodes, the transactions and the commands that change the map are not
  among the sources. The operations below use them through a few calls, which are the
  parameters of the model: the brush nodes of the selection and their brushes, the
  intersection of two brushes within the world bounds of the map (an error message or
  the intersected brush), the error log, the start, cancellation and commit of a
  transaction, and the commands that select, deselect, add and remove nodes and that
  replace the contents of nodes. Every call that changes the map returns the new map;
  adding a node returns the node, or nothing when the command fails.
\<close>

record ('map, 'node, 'brush) map_ops =
  selectedBrushes :: "'map \<Rightarrow> 'node list"
  node_brush :: "'node \<Rightarrow> 'brush"
  intersect :: "'map \<Rightarrow> 'brush \<Rightarrow> 'brush \<Rightarrow> string + 'brush"
  log_error :: "string \<Rightarrow> 'map \<Rightarrow> 'map"
  startTransaction :: "string \<Rightarrow> 'map \<Rightarrow> 'map"
  deselectNodes :: "'node list \<Rightarrow> 'map \<Rightarrow> 'map"
  addBrushNode :: "'node list \<Rightarrow> 'brush \<Rightarrow> 'map \<Rightarrow> 'node option \<times> 'map"
  removeNodes :: "'node list \<Rightarrow> 'map \<Rightarrow> 'map"
  selectNodes :: "'node list \<Rightarrow> 'map \<Rightarrow> 'map"
  cancel :: "'map \<Rightarrow> 'map"
  commit :: "'map \<Rightarrow> bool \<times> 'map"
  updateNodeContents :: "string \<Rightarrow> ('node \<times> 'brush) list \<Rightarrow> 'map \<Rightarrow> bool \<times> 'map"

subsection \<open>CSG intersection\<close>

text \<open>
  The loop of \<^verbatim>\<open>csgIntersect\<close> over the brushes behind the first: it runs while the
  intersection is valid, and a failed intersection is logged. The result is the
  intersection, or nothing when it is not valid, and the map with its log.
\<close>

fun intersect_loop ::
  "('map, 'node, 'brush) map_ops \<Rightarrow> 'node list \<Rightarrow> 'brush \<Rightarrow> 'map \<Rightarrow> 'brush option \<times> 'map" where
  "intersect_loop mops [] intersection m = (Some intersection, m)"
| "intersect_loop mops (brushNode # rest) intersection m =
     (case intersect mops m intersection (node_brush mops brushNode) of
        Inl e \<Rightarrow> (None, log_error mops (''Could not intersect brushes: '' @ e) m)
      | Inr intersection' \<Rightarrow> intersect_loop mops rest intersection' m)"

definition csgIntersect :: "('map, 'node, 'brush) map_ops \<Rightarrow> 'map \<Rightarrow> bool \<times> 'map" where
  "csgIntersect mops m =
     (let brushes = selectedBrushes mops m
      in if length brushes < 2 then (False, m)
         else
           (case intersect_loop mops (tl brushes) (node_brush mops (hd brushes)) m of
              (valid, m1) \<Rightarrow>
                (let toRemove = brushes;
                     m2 = deselectNodes mops toRemove
                            (startTransaction mops ''CSG Intersect'' m1)
                 in case valid of
                      Some intersection \<Rightarrow>
                        (case addBrushNode mops toRemove intersection m2 of
                           (None, m3) \<Rightarrow> (False, cancel mops m3)
                         | (Some intersectionNode, m3) \<Rightarrow>
                             commit mops
                               (selectNodes mops [intersectionNode]
                                  (removeNodes mops toRemove m3)))
                    | None \<Rightarrow> commit mops (removeNodes mops toRemove m2))))"

text \<open>
  Intersecting a list of brushes pairwise in sequence, as the specification has it: each
  brush is intersected with the intersection of those before it, and the first failure
  is the result.
\<close>

fun intersect_all :: "('b \<Rightarrow> 'b \<Rightarrow> string + 'b) \<Rightarrow> 'b list \<Rightarrow> 'b \<Rightarrow> string + 'b" where
  "intersect_all f [] b = Inr b"
| "intersect_all f (x # xs) b =
     (case f b x of Inl e \<Rightarrow> Inl e | Inr b' \<Rightarrow> intersect_all f xs b')"

subsection \<open>Chamfering edges\<close>

text \<open>
  Modelled from the spec: the vector algebra of \<^verbatim>\<open>vm\<close> is not among the sources. The
  sum, the difference, the product and quotient with a number, the dot product, the cross
  product and the squared length of vectors of three numbers are the usual ones of the
  "vector/matrix/plane math" the specification assumes.
\<close>

definition vec_add :: "'a::plus vec3 \<Rightarrow> 'a vec3 \<Rightarrow> 'a vec3" where
  "vec_add a b = (case (a, b) of ((x, y, z), (x', y', z')) \<Rightarrow> (x + x', y + y', z + z'))"

definition vec_sub :: "'a::minus vec3 \<Rightarrow> 'a vec3 \<Rightarrow> 'a vec3" where
  "vec_sub a b = (case (a, b) of ((x, y, z), (x', y', z')) \<Rightarrow> (x - x', y - y', z - z'))"

definition vec_scale :: "'a::times vec3 \<Rightarrow> 'a \<Rightarrow> 'a vec3" where
  "vec_scale a s = (case a of (x, y, z) \<Rightarrow> (x * s, y * s, z * s))"

definition vec_div :: "'a::inverse vec3 \<Rightarrow> 'a \<Rightarrow> 'a vec3" where
  "vec_div a s = (case a of (x, y, z) \<Rightarrow> (x / s, y / s, z / s))"

definition dot :: "'a::{plus,times} vec3 \<Rightarrow> 'a vec3 \<Rightarrow> 'a" where
  "dot a b = (case (a, b) of ((x, y, z), (x', y', z')) \<Rightarrow> x * x' + y * y' + z * z')"

definition cross :: "'a::{minus,times} vec3 \<Rightarrow> 'a vec3 \<Rightarrow> 'a vec3" where
  "cross a b =
     (case (a, b) of
        ((x, y, z), (x', y', z')) \<Rightarrow> (y * z' - z * y', z * x' - x * z', x * y' - y * x'))"

definition squared_length :: "'a::{plus,times} vec3 \<Rightarrow> 'a" where
  "squared_length a = dot a a"

text \<open>
  Brushes, their edges, face geometries and faces are not among the sources either, nor
  are the functions of \<^verbatim>\<open>vm\<close> and \<^verbatim>\<open>kdl\<close> that are no plain arithmetic. What the
  chamfer code uses of them is the second parameter of the model. Numbers are the
  elements of a linearly ordered field; an edge position is the pair of its end points;
  a null pointer and an empty optional are \<open>None\<close>. Creating a face and clipping a
  brush return an error message or the result; both read the map (its current material,
  its format, its world bounds).
\<close>

record ('map, 'brush, 'edge, 'fg, 'face, 'a) brush_ops =
  edges :: "'brush \<Rightarrow> 'edge list"
  hasEdge :: "'brush \<Rightarrow> 'a vec3 \<times> 'a vec3 \<Rightarrow> bool"
  hasPositions :: "'edge \<Rightarrow> 'a vec3 \<Rightarrow> 'a vec3 \<Rightarrow> 'a \<Rightarrow> bool"
  fullySpecified :: "'edge \<Rightarrow> bool"
  firstFace :: "'edge \<Rightarrow> 'fg option"
  secondFace :: "'edge \<Rightarrow> 'fg option"
  payload :: "'fg \<Rightarrow> nat option"
  face :: "'brush \<Rightarrow> nat \<Rightarrow> 'face"
  faces :: "'brush \<Rightarrow> 'face list"
  segment_direction :: "'edge \<Rightarrow> 'a vec3"
  segment_start :: "'edge \<Rightarrow> 'a vec3"
  normal :: "'face \<Rightarrow> 'a vec3"
  point_distance :: "'face \<Rightarrow> 'a vec3 \<Rightarrow> 'a"
  invert_face :: "'face \<Rightarrow> 'face"
  setAttributes :: "'face \<Rightarrow> 'face \<Rightarrow> 'face"
  vertexPositions :: "'brush \<Rightarrow> 'a vec3 list"
  bounds_center :: "'brush \<Rightarrow> 'a vec3"
  create_face :: "'map \<Rightarrow> 'a vec3 \<Rightarrow> 'a vec3 \<Rightarrow> 'a vec3 \<Rightarrow> string + 'face"
  clip :: "'map \<Rightarrow> 'brush \<Rightarrow> 'face \<Rightarrow> string + 'brush"
  vec_sort_and_remove_duplicates :: "('a vec3 \<times> 'a vec3) list \<Rightarrow> ('a vec3 \<times> 'a vec3) list"
  vec_normalize :: "'a vec3 \<Rightarrow> 'a vec3"
  atan2 :: "'a \<Rightarrow> 'a \<Rightarrow> 'a"
  quat_rotate :: "'a vec3 \<Rightarrow> 'a \<Rightarrow> 'a vec3 \<Rightarrow> 'a vec3"
  vm_almost_zero :: 'a
  point_status_epsilon :: 'a

definition findEdgeByPositions ::
  "('map, 'brush, 'edge, 'fg, 'face, 'a) brush_ops \<Rightarrow> 'brush \<Rightarrow> 'a vec3 \<times> 'a vec3 \<Rightarrow> 'a
     \<Rightarrow> 'edge option" where
  "findEdgeByPositions ops brush edgePosition epsilon =
     find (\<lambda>edge. hasPositions ops edge (fst edgePosition) (snd edgePosition) epsilon)
       (edges ops brush)"

text \<open>The loop of \<^verbatim>\<open>setFaceAttributes\<close> behind the first face.\<close>

fun bestMatch_from ::
  "('map, 'brush, 'edge, 'fg, 'face, 'a::linordered_field) brush_ops \<Rightarrow> 'face \<Rightarrow> 'face
     \<Rightarrow> 'face list \<Rightarrow> 'face" where
  "bestMatch_from ops toSet bestMatch [] = bestMatch"
| "bestMatch_from ops toSet bestMatch (f # fs) =
     (let bestDiff = vec_sub (normal ops bestMatch) (normal ops toSet);
          curDiff = vec_sub (normal ops f) (normal ops toSet)
      in bestMatch_from ops toSet
           (if squared_length curDiff < squared_length bestDiff then f else bestMatch) fs)"

definition setFaceAttributes ::
  "('map, 'brush, 'edge, 'fg, 'face, 'a::linordered_field) brush_ops \<Rightarrow> 'face list \<Rightarrow> 'face
     \<Rightarrow> contract_violation + 'face" where
  "setFaceAttributes ops fs toSet =
     (case fs of
        [] \<Rightarrow> Inl ContractViolation
      | f # rest \<Rightarrow> Inr (setAttributes ops toSet (bestMatch_from ops toSet f rest)))"

definition brushInteriorPoint ::
  "('map, 'brush, 'edge, 'fg, 'face, 'a::linordered_field) brush_ops \<Rightarrow> 'brush \<Rightarrow> 'a vec3" where
  "brushInteriorPoint ops brush =
     (let vertices = vertexPositions ops brush
      in if vertices = [] then bounds_center ops brush
         else vec_div (fold (\<lambda>vertex sum. vec_add sum vertex) vertices (0, 0, 0))
                (of_nat (length vertices)))"

definition orientFaceToBrush ::
  "('map, 'brush, 'edge, 'fg, 'face, 'a::linordered_field) brush_ops \<Rightarrow> 'brush \<Rightarrow> 'face
     \<Rightarrow> 'face" where
  "orientFaceToBrush ops brush f =
     (if 0 < point_distance ops f (brushInteriorPoint ops brush) then invert_face ops f else f)"

text \<open>
  What \<^verbatim>\<open>chamferBrushEdge\<close> can change: the brush, the flag \<^verbatim>\<open>didChamfer\<close> and the
  map, by its log.
\<close>

record ('map, 'brush) chamfer_state =
  cs_brush :: 'brush
  cs_didChamfer :: bool
  cs_map :: 'map

text \<open>
  The first part of \<^verbatim>\<open>chamferBrushEdge\<close>, up to the normalized projections of the normals
  of the two faces at the edge. \<open>None\<close> is each of the early returns of this part: the
  edge is not found or not fully specified, a face or its index is missing, the axis or
  a projected normal is almost zero.
\<close>

definition edge_normals ::
  "('map, 'brush, 'edge, 'fg, 'face, 'a::linordered_field) brush_ops \<Rightarrow> 'brush
     \<Rightarrow> 'a vec3 \<times> 'a vec3 \<Rightarrow> ('edge \<times> 'a vec3 \<times> 'a vec3 \<times> 'a vec3) option" where
  "edge_normals ops brush edgePosition =
     (case findEdgeByPositions ops brush edgePosition (point_status_epsilon ops) of
        None \<Rightarrow> None
      | Some edge \<Rightarrow>
          if \<not> fullySpecified ops edge then None
          else
            (case (firstFace ops edge, secondFace ops edge) of
               (Some faceGeometry1, Some faceGeometry2) \<Rightarrow>
                 (case (payload ops faceGeometry1, payload ops faceGeometry2) of
                    (Some faceIndex1, Some faceIndex2) \<Rightarrow>
                      (let face1 = face ops brush faceIndex1;
                           face2 = face ops brush faceIndex2;
                           axis = segment_direction ops edge
                       in if squared_length axis \<le> vm_almost_zero ops then None
                          else
                            (let n1 = vec_sub (normal ops face1)
                                        (vec_scale axis (dot (normal ops face1) axis));
                                 n2 = vec_sub (normal ops face2)
                                        (vec_scale axis (dot (normal ops face2) axis))
                             in if squared_length n1 \<le> vm_almost_zero ops
                                   \<or> squared_length n2 \<le> vm_almost_zero ops then None
                                else Some (edge, axis, vec_normalize ops n1,
                                           vec_normalize ops n2)))
                  | _ \<Rightarrow> None)
             | _ \<Rightarrow> None))"

text \<open>
  One round of the loop over the segments: the result is false when the face cannot be
  created or the brush cannot be clipped, which is logged. After a failed clip the brush
  of the model is the brush before the clip; the caller drops the brush of a failed call.
\<close>

definition chamfer_segment ::
  "('map, 'brush, 'edge, 'fg, 'face, 'a::linordered_field) brush_ops
     \<Rightarrow> ('map, 'node, 'brush) map_ops \<Rightarrow> 'a vec3 \<Rightarrow> 'a vec3
     \<Rightarrow> 'a vec3 \<Rightarrow> 'a \<Rightarrow> 'a \<Rightarrow> nat \<Rightarrow> ('map, 'brush) chamfer_state
     \<Rightarrow> contract_violation + (bool \<times> ('map, 'brush) chamfer_state)" where
  "chamfer_segment ops mops axis n1 start step distance i st =
     (let n0 = quat_rotate ops axis (step * of_nat i) n1;
          n1Step = quat_rotate ops axis (step * of_nat (i + 1)) n1;
          p0 = vec_sub start (vec_scale n0 distance);
          p1 = vec_sub start (vec_scale n1Step distance);
          p2 = vec_add p0 axis
      in case create_face ops (cs_map st) p0 p2 p1 of
           Inl e \<Rightarrow>
             Inr (False,
                  st\<lparr>cs_map := log_error mops (''Could not chamfer brush edge: '' @ e)
                                  (cs_map st)\<rparr>)
         | Inr clipFace \<Rightarrow>
             (case setFaceAttributes ops (faces ops (cs_brush st))
                     (orientFaceToBrush ops (cs_brush st) clipFace) of
                Inl v \<Rightarrow> Inl v
              | Inr clipFace' \<Rightarrow>
                  (case clip ops (cs_map st) (cs_brush st) clipFace' of
                     Inl e \<Rightarrow>
                       Inr (False,
                            st\<lparr>cs_map := log_error mops (''Could not chamfer brush edge: '' @ e)
                                            (cs_map st)\<rparr>)
                   | Inr brush' \<Rightarrow>
                       Inr (True, st\<lparr>cs_brush := brush', cs_didChamfer := True\<rparr>))))"

fun chamfer_segments ::
  "('map, 'brush, 'edge, 'fg, 'face, 'a::linordered_field) brush_ops
     \<Rightarrow> ('map, 'node, 'brush) map_ops \<Rightarrow> 'a vec3 \<Rightarrow> 'a vec3
     \<Rightarrow> 'a vec3 \<Rightarrow> 'a \<Rightarrow> 'a \<Rightarrow> nat list \<Rightarrow> ('map, 'brush) chamfer_state
     \<Rightarrow> contract_violation + (bool \<times> ('map, 'brush) chamfer_state)" where
  "chamfer_segments ops mops axis n1 start step distance [] st = Inr (True, st)"
| "chamfer_segments ops mops axis n1 start step distance (i # is) st =
     (case chamfer_segment ops mops axis n1 start step distance i st of
        Inl v \<Rightarrow> Inl v
      | Inr (False, st') \<Rightarrow> Inr (False, st')
      | Inr (True, st') \<Rightarrow> chamfer_segments ops mops axis n1 start step distance is st')"

definition chamferBrushEdge ::
  "('map, 'brush, 'edge, 'fg, 'face, 'a::linordered_field) brush_ops
     \<Rightarrow> ('map, 'node, 'brush) map_ops \<Rightarrow> 'a vec3 \<times> 'a vec3
     \<Rightarrow> 'a \<Rightarrow> nat \<Rightarrow> ('map, 'brush) chamfer_state
     \<Rightarrow> contract_violation + (bool \<times> ('map, 'brush) chamfer_state)" where
  "chamferBrushEdge ops mops edgePosition distance segments st =
     (case edge_normals ops (cs_brush st) edgePosition of
        None \<Rightarrow> Inr (True, st)
      | Some (edge, axis, n1, n2) \<Rightarrow>
          (let dotNormals = dot n1 n2
           in if 1 - vm_almost_zero ops \<le> \<bar>dotNormals\<bar> then Inr (True, st)
              else
                (let angle = atan2 ops (dot axis (cross n1 n2)) dotNormals
                 in if \<bar>angle\<bar> \<le> vm_almost_zero ops then Inr (True, st)
                    else
                      (let step = angle / of_nat segments;
                           start = segment_start ops edge
                       in chamfer_segments ops mops axis n1 start step distance
                            [0..<segments] st))))"

text \<open>The function that \<^verbatim>\<open>chamferEdges\<close> applies to a brush, and its loop over the edges.\<close>

fun chamfer_edges_of_brush ::
  "('map, 'brush, 'edge, 'fg, 'face, 'a::linordered_field) brush_ops
     \<Rightarrow> ('map, 'node, 'brush) map_ops \<Rightarrow> 'a \<Rightarrow> nat
     \<Rightarrow> ('a vec3 \<times> 'a vec3) list \<Rightarrow> ('map, 'brush) chamfer_state
     \<Rightarrow> contract_violation + (bool \<times> ('map, 'brush) chamfer_state)" where
  "chamfer_edges_of_brush ops mops distance segments [] st = Inr (True, st)"
| "chamfer_edges_of_brush ops mops distance segments (edge # rest) st =
     (case chamferBrushEdge ops mops edge distance segments st of
        Inl v \<Rightarrow> Inl v
      | Inr (False, st') \<Rightarrow> Inr (False, st')
      | Inr (True, st') \<Rightarrow> chamfer_edges_of_brush ops mops distance segments rest st')"

definition chamfer_brush ::
  "('map, 'brush, 'edge, 'fg, 'face, 'a::linordered_field) brush_ops
     \<Rightarrow> ('map, 'node, 'brush) map_ops \<Rightarrow> ('a vec3 \<times> 'a vec3) list \<Rightarrow> 'a \<Rightarrow> nat
     \<Rightarrow> ('map, 'brush) chamfer_state
     \<Rightarrow> contract_violation + (bool \<times> ('map, 'brush) chamfer_state)" where
  "chamfer_brush ops mops edgePositions distance segments st =
     (let edgesToChamfer = filter (hasEdge ops (cs_brush st)) edgePositions
      in if edgesToChamfer = [] then Inr (True, st)
         else chamfer_edges_of_brush ops mops distance segments edgesToChamfer st)"

text \<open>
  Modelled from the spec: \<^verbatim>\<open>applyToNodeContents\<close> is not among the sources. As the
  geometric operations are "pure value transformations" that leave the input "unchanged"
  until the result is committed, it applies the function to a copy of the contents of
  each node in turn and returns the nodes with their new contents, or nothing as soon
  as the function fails on a node. The flag and the map that the function captures are
  passed along.
\<close>

fun applyToNodeContents ::
  "('node \<Rightarrow> 'brush) \<Rightarrow> (('map, 'brush) chamfer_state
      \<Rightarrow> contract_violation + (bool \<times> ('map, 'brush) chamfer_state))
     \<Rightarrow> 'node list \<Rightarrow> bool \<times> 'map
     \<Rightarrow> contract_violation + (('node \<times> 'brush) list option \<times> bool \<times> 'map)" where
  "applyToNodeContents contents f [] (did, m) = Inr (Some [], did, m)"
| "applyToNodeContents contents f (node # rest) (did, m) =
     (case f \<lparr>cs_brush = contents node, cs_didChamfer = did, cs_map = m\<rparr> of
        Inl v \<Rightarrow> Inl v
      | Inr (False, st') \<Rightarrow> Inr (None, cs_didChamfer st', cs_map st')
      | Inr (True, st') \<Rightarrow>
          (case applyToNodeContents contents f rest (cs_didChamfer st', cs_map st') of
             Inl v \<Rightarrow> Inl v
           | Inr (None, s) \<Rightarrow> Inr (None, s)
           | Inr (Some newNodes, s) \<Rightarrow> Inr (Some ((node, cs_brush st') # newNodes), s)))"

definition str_plural :: "nat \<Rightarrow> string \<Rightarrow> string \<Rightarrow> string" where
  "str_plural n singular plural = (if n = 1 then singular else plural)"

definition chamferEdges ::
  "('map, 'brush, 'edge, 'fg, 'face, 'a::linordered_field) brush_ops
     \<Rightarrow> ('map, 'node, 'brush) map_ops \<Rightarrow> 'map \<Rightarrow> ('a vec3 \<times> 'a vec3) list \<Rightarrow> 'a \<Rightarrow> nat
     \<Rightarrow> contract_violation + (bool \<times> 'map)" where
  "chamferEdges ops mops m edgePositions distance segments =
     (if edgePositions = [] \<or> distance \<le> 0 \<or> segments = 0 then Inr (False, m)
      else
        (let edgePositions' = vec_sort_and_remove_duplicates ops edgePositions
         in case applyToNodeContents (node_brush mops)
                   (chamfer_brush ops mops edgePositions' distance segments)
                   (selectedBrushes mops m) (False, m) of
              Inl v \<Rightarrow> Inl v
            | Inr (newNodes, didChamfer, m') \<Rightarrow>
                (case newNodes of
                   None \<Rightarrow> Inr (False, m')
                 | Some nodes \<Rightarrow>
                     if \<not> didChamfer then Inr (False, m')
                     else Inr (updateNodeContents mops
                                 (str_plural (length edgePositions') ''Chamfer Brush Edge''
                                    ''Chamfer Brush Edges'')
                                 nodes m'))))"

text \<open>
  The two faces at an edge are parallel or anti-parallel for the chamfer code when the
  first part succeeds and one of its two tests on the angle between the normals holds:
  the absolute value of the dot product is at least \<open>1 - almost_zero\<close>, or that of
  the angle is at most \<open>almost_zero\<close>.
\<close>

definition parallel_faces ::
  "('map, 'brush, 'edge, 'fg, 'face, 'a::linordered_field) brush_ops \<Rightarrow> 'brush
     \<Rightarrow> 'a vec3 \<times> 'a vec3 \<Rightarrow> bool" where
  "parallel_faces ops brush edgePosition =
     (case edge_normals ops brush edgePosition of
        None \<Rightarrow> False
      | Some (edge, axis, n1, n2) \<Rightarrow>
          1 - vm_almost_zero ops \<le> \<bar>dot n1 n2\<bar>
          \<or> \<bar>atan2 ops (dot axis (cross n1 n2)) (dot n1 n2)\<bar> \<le> vm_almost_zero ops)"

subsection \<open>An example map\<close>

text \<open>
  A map whose brushes are intervals of integers: the intersection of two intervals fails
  when it is empty. Nodes are numbered brushes; a commit succeeds. The brushes have one
  edge, along the third axis, between two faces with opposite normals.
\<close>

record simple_map =
  sm_nodes :: "(nat \<times> int \<times> int) list"
  sm_selected :: "(nat \<times> int \<times> int) list"
  sm_log :: "string list"
  sm_open :: bool

definition simple_ops :: "(simple_map, nat \<times> int \<times> int, int \<times> int) map_ops" where
  "simple_ops =
     \<lparr>selectedBrushes = sm_selected,
      node_brush = snd,
      intersect = (\<lambda>m (a1, b1) (a2, b2).
                     if min b1 b2 \<le> max a1 a2 then Inl ''Brush is empty''
                     else Inr (max a1 a2, min b1 b2)),
      log_error = (\<lambda>e m. m\<lparr>sm_log := sm_log m @ [e]\<rparr>),
      startTransaction = (\<lambda>name m. m\<lparr>sm_open := True\<rparr>),
      deselectNodes = (\<lambda>ns m. m\<lparr>sm_selected := filter (\<lambda>n. n \<notin> set ns) (sm_selected m)\<rparr>),
      addBrushNode = (\<lambda>ns b m. (Some (length (sm_nodes m), b),
                                  m\<lparr>sm_nodes := sm_nodes m @ [(length (sm_nodes m), b)]\<rparr>)),
      removeNodes = (\<lambda>ns m. m\<lparr>sm_nodes := filter (\<lambda>n. n \<notin> set ns) (sm_nodes m)\<rparr>),
      selectNodes = (\<lambda>ns m. m\<lparr>sm_selected := sm_selected m @ ns\<rparr>),
      cancel = (\<lambda>m. m\<lparr>sm_open := False\<rparr>),
      commit = (\<lambda>m. (True, m\<lparr>sm_open := False\<rparr>)),
      updateNodeContents =
        (\<lambda>name nodes m. (True, m\<lparr>sm_nodes := map (\<lambda>(n, b). (fst n, b)) nodes\<rparr>))\<rparr>"

definition disjoint_map :: simple_map where
  "disjoint_map =
     \<lparr>sm_nodes = [(0, 0, 10), (1, 20, 30), (2, 5, 25)],
      sm_selected = [(0, 0, 10), (1, 20, 30)], sm_log = [], sm_open = False\<rparr>"

definition example_brush_ops ::
  "(simple_map, int \<times> int, nat, nat, rat vec3, rat) brush_ops" where
  "example_brush_ops =
     \<lparr>edges = (\<lambda>brush. [0]),
      hasEdge = (\<lambda>brush e. e = ((0, 0, 0), (0, 0, 1))),
      hasPositions = (\<lambda>edge s t epsilon. s = (0, 0, 0) \<and> t = (0, 0, 1)),
      fullySpecified = (\<lambda>edge. True),
      firstFace = (\<lambda>edge. Some 0),
      secondFace = (\<lambda>edge. Some 1),
      payload = Some,
      face = (\<lambda>brush i. if i = 0 then (1, 0, 0) else (- 1, 0, 0)),
      faces = (\<lambda>brush. [(1, 0, 0), (- 1, 0, 0)]),
      segment_direction = (\<lambda>edge. (0, 0, 1)),
      segment_start = (\<lambda>edge. (0, 0, 0)),
      normal = (\<lambda>f. f),
      point_distance = (\<lambda>f p. dot f p),
      invert_face = (\<lambda>f. vec_scale f (- 1)),
      setAttributes = (\<lambda>toSet other. toSet),
      vertexPositions = (\<lambda>brush. []),
      bounds_center = (\<lambda>brush. (0, 0, 0)),
      create_face = (\<lambda>m p0 p2 p1. Inr (cross (vec_sub p2 p0) (vec_sub p1 p0))),
      clip = (\<lambda>m brush f. Inr brush),
      vec_sort_and_remove_duplicates = remdups,
      vec_normalize = (\<lambda>v. v),
      atan2 = (\<lambda>y x. 0),
      quat_rotate = (\<lambda>axis angle v. v),
      vm_almost_zero = 1 / 1000,
      point_status_epsilon = 1 / 100\<rparr>"

section \<open>Properties of patch dimension sanitization\<close>

lemma even_word_unat: "(count :: size_t) mod 2 = 0 \<longleftrightarrow> unat count mod 2 = 0"
proof -
  have "unat (count mod 2) = unat count mod 2"
    by (simp add: unat_mod)
  then show ?thesis
    by (metis unat_eq_zero)
qed

lemma even_word_succ:
  assumes "(count :: size_t) mod 2 = 0"
  shows "unat (count + 1) = unat count + 1"
proof -
  have e: "unat count mod 2 = 0"
    using assms by (simp add: even_word_unat)
  have "unat count < 2 ^ 64"
    using unsigned_less [of count] by simp
  then have "unat count < 18446744073709551616"
    by simp
  with e have "unat count + 1 < 18446744073709551616"
    by presburger
  then have "unat count + unat (1 :: size_t) < 2 ^ LENGTH(64)"
    by simp
  then have "unat (count + 1) = unat count + unat (1 :: size_t)"
    by (simp only: unat_add_lem [THEN iffD1])
  then show ?thesis
    by simp
qed

lemma sanitize_small:
  "count < 3 \<Longrightarrow>
   sanitizePatchCount count label loc st =
     (3, warn loc (''Invalid patch '' @ label @ '', expanding to 3'') st)"
  by (simp add: sanitizePatchCount_def)

lemma sanitize_even:
  "\<not> count < 3 \<Longrightarrow> count mod 2 = 0 \<Longrightarrow>
   sanitizePatchCount count label loc st =
     (count + 1,
      warn loc (''Invalid patch '' @ label @ '', expanding to '' @ show_nat (unat (count + 1))) st)"
  by (simp add: sanitizePatchCount_def Let_def)

lemma sanitize_odd:
  "\<not> count < 3 \<Longrightarrow> count mod 2 \<noteq> 0 \<Longrightarrow> sanitizePatchCount count label loc st = (count, st)"
  by (simp add: sanitizePatchCount_def)

lemma sanitize_result_valid:
  "\<not> fst (sanitizePatchCount count label loc st) < 3 \<and>
   fst (sanitizePatchCount count label loc st) mod 2 \<noteq> 0"
proof (cases "count < 3")
  case True
  then show ?thesis
    by (simp add: sanitize_small)
next
  case big: False
  show ?thesis
  proof (cases "count mod 2 = 0")
    case True
    have u: "unat (count + 1) = unat count + 1"
      using True by (rule even_word_succ)
    have e: "unat count mod 2 = 0"
      using True by (simp add: even_word_unat)
    have b: "\<not> unat count < 3"
      using big by (simp add: word_less_nat_alt)
    have "\<not> unat (count + 1) < 3" and "unat (count + 1) mod 2 \<noteq> 0"
      using u e b by presburger+
    then have "\<not> count + 1 < 3" and "(count + 1) mod 2 \<noteq> 0"
      by (simp_all add: word_less_nat_alt even_word_unat)
    then show ?thesis
      using big True by (simp add: sanitize_even)
  next
    case False
    then show ?thesis
      using big by (simp add: sanitize_odd)
  qed
qed

text \<open>
  C5. Sanitizing a patch row or column count sends every count below 3 to 3 and every
  even count of at least 3 to the next number, which does not wrap around, adding one
  warning to the status in both cases; an odd count of at least 3 comes back unchanged
  with the status untouched. Hence sanitizing is idempotent: a sanitized count is
  returned as it is and without a warning, whatever label, location and status the
  second call is given.
\<close>

theorem sanitizePatchCount_spec:
  fixes count :: size_t and st st' :: "'loc ParserStatus"
  shows
    "(count < 3 \<longrightarrow>
        sanitizePatchCount count label loc st
          = (3, warn loc (''Invalid patch '' @ label @ '', expanding to 3'') st)) \<and>
     (3 \<le> count \<and> count mod 2 = 0 \<longrightarrow>
        sanitizePatchCount count label loc st
          = (count + 1,
             warn loc (''Invalid patch '' @ label @ '', expanding to ''
                         @ show_nat (unat count + 1)) st)
        \<and> unat (count + 1) = unat count + 1) \<and>
     (3 \<le> count \<and> count mod 2 \<noteq> 0 \<longrightarrow>
        sanitizePatchCount count label loc st = (count, st)) \<and>
     sanitizePatchCount (fst (sanitizePatchCount count label loc st)) label' loc' st'
       = (fst (sanitizePatchCount count label loc st), st')"
proof -
  have small: "count < 3 \<longrightarrow>
        sanitizePatchCount count label loc st
          = (3, warn loc (''Invalid patch '' @ label @ '', expanding to 3'') st)"
    by (simp add: sanitize_small)
  have ev: "3 \<le> count \<and> count mod 2 = 0 \<longrightarrow>
        sanitizePatchCount count label loc st
          = (count + 1,
             warn loc (''Invalid patch '' @ label @ '', expanding to ''
                         @ show_nat (unat count + 1)) st)
        \<and> unat (count + 1) = unat count + 1"
    by (simp add: sanitize_even even_word_succ not_less)
  have od: "3 \<le> count \<and> count mod 2 \<noteq> 0 \<longrightarrow>
        sanitizePatchCount count label loc st = (count, st)"
    by (simp add: sanitize_odd not_less)
  have idem: "sanitizePatchCount (fst (sanitizePatchCount count label loc st)) label' loc' st'
       = (fst (sanitizePatchCount count label loc st), st')"
    using sanitize_result_valid [of count label loc st] by (simp add: sanitize_odd)
  from small ev od idem show ?thesis
    by blast
qed

theorem sanitizePatchCount_spec_witness:
  "sanitizePatchCount 2 ''height'' (7::nat) \<lparr>warnings = []\<rparr>
     = (3, \<lparr>warnings = [(7, ''Invalid patch height, expanding to 3'')]\<rparr>) \<and>
   sanitizePatchCount 4 ''width'' (7::nat) \<lparr>warnings = []\<rparr>
     = (5, \<lparr>warnings = [(7, ''Invalid patch width, expanding to 5'')]\<rparr>) \<and>
   sanitizePatchCount 5 ''width'' (7::nat) \<lparr>warnings = []\<rparr> = (5, \<lparr>warnings = []\<rparr>) \<and>
   sanitizePatchCount (fst (sanitizePatchCount 4 ''width'' (7::nat) \<lparr>warnings = []\<rparr>))
       ''width'' (7::nat) \<lparr>warnings = []\<rparr>
     = (5, \<lparr>warnings = []\<rparr>)"
proof -
  have a: "(2 :: size_t) < 3" by simp
  have b: "(3 :: size_t) \<le> 4 \<and> (4 :: size_t) mod 2 = 0" by simp
  have c: "(3 :: size_t) \<le> 5 \<and> (5 :: size_t) mod 2 \<noteq> 0" by simp
  have s: "show_nat (unat (4 :: size_t) + 1) = ''5''"
    by (simp add: show_nat.simps)
  show ?thesis
    using a b c s
      sanitizePatchCount_spec [of 2 "''height''" "7::nat" "\<lparr>warnings = []\<rparr>"]
      sanitizePatchCount_spec [of 4 "''width''" "7::nat" "\<lparr>warnings = []\<rparr>" "''width''" 7
        "\<lparr>warnings = []\<rparr>"]
      sanitizePatchCount_spec [of 5 "''width''" "7::nat" "\<lparr>warnings = []\<rparr>"]
    by (simp add: warn_def)
qed

section \<open>Properties of the hotspot rect parser\<close>

lemma round_binary32_0: "round_binary32 0 = 0"
  by (simp add: round_binary32_def)

lemma binary_exponent_1: "binary_exponent 1 = 0"
  by (simp add: binary_exponent_def log2_floor.simps)

lemma binary_exponent_2: "binary_exponent 2 = 1"
  by (simp add: binary_exponent_def log2_floor.simps)

lemma binary_exponent_32: "binary_exponent 32 = 5"
  by (simp add: binary_exponent_def log2_floor.simps)

lemma round_binary32_1: "round_binary32 1 = 1"
  unfolding round_binary32_def Let_def
  by (simp add: binary_exponent_1 pow2_def round_half_even_def)

lemma round_binary32_2: "round_binary32 2 = 2"
  unfolding round_binary32_def Let_def
  by (simp add: binary_exponent_2 pow2_def round_half_even_def)

lemma round_binary32_32: "round_binary32 32 = 32"
  unfolding round_binary32_def Let_def
  by (simp add: binary_exponent_32 pow2_def round_half_even_def)

lemma floor_rat_numeral: "\<lfloor>numeral a / (numeral b :: rat)\<rfloor> = numeral a div numeral b"
  using floor_divide_of_int_eq [of "numeral a" "numeral b", where ?'a = rat] by simp

lemma stof_rounds: "stof ''0.1'' = Inr (13421773 / 2 ^ 27)"
proof -
  have e: "binary_exponent (1 / 10) = - 4"
    by (simp add: binary_exponent_def log2_floor.simps)
  have r: "round_binary32 (1 / 10) = 13421773 / 2 ^ 27"
    unfolding round_binary32_def Let_def
    by (simp add: e pow2_def round_half_even_def Let_def floor_rat_numeral)
  have s: "strtof ''0.1'' = Some (1 / 10)"
    by (simp add: strtof_def strtof_exponent_def isspace_def isdigit_def digits_val_def
        digit_val_def Let_def)
  show ?thesis
    by (simp add: stof_def s r float_overflow_def float_underflow_def)
qed

lemma stof_underflow: "stof ''0.0000000000000000000000000000000000000001'' = Inl out_of_range"
proof -
  have e: "binary_exponent (1 / 10000000000000000000000000000000000000000) = - 133"
    by (simp add: binary_exponent_def log2_floor.simps)
  have r: "round_binary32 (1 / 10000000000000000000000000000000000000000) = 71362 / 2 ^ 149"
    unfolding round_binary32_def Let_def
    by (simp add: e pow2_def round_half_even_def Let_def floor_rat_numeral)
  have s: "strtof ''0.0000000000000000000000000000000000000001'' = Some (1 / 10 ^ 40)"
    by (simp add: strtof_def strtof_exponent_def isspace_def isdigit_def digits_val_def
        digit_val_def Let_def)
  show ?thesis
    by (simp add: stof_def s r float_overflow_def float_underflow_def)
qed

lemmas hotspot_eval =
  parseHotspotRectFile_def parse_line_def Let_def trim_def stripComments_def find_str_def
  scan_braces_def currentTextureName_def isRectanglesKeyword_def toLower_def tolower_def
  parseNumbers_def match_number_def match_unsigned_def isdigit_def isspace_def stof_def
  strtof_def strtof_exponent_def float_overflow_def float_underflow_def round_binary32_0
  round_binary32_1 round_binary32_2 round_binary32_32 str_to_float_def digits_val_def
  digit_val_def hasToken_def parseWeightToken_def push_rect_def getlines.simps
  tokenizeLine.simps regex_matches.simps

lemma one_line_parse:
  "parseHotspotRectFile ''foo { rectangles { 0 0 32 32 tileu weight=2 } }'' None
     = Inr (Success Map.empty)"
  by (simp add: hotspot_eval)

lemma multi_line_parse:
  "parseHotspotRectFile
     (''foo {'' @ [CHR 0x0A] @ ''rectangles {'' @ [CHR 0x0A]
        @ ''0 0 32 32 tileu weight=2'' @ [CHR 0x0A] @ ''}'' @ [CHR 0x0A] @ ''}'') None
     = Inr (Success
         [''foo'' \<mapsto> [\<lparr>rect_min = (0, 0), rect_size = (32, 32), tileU = True,
                          tileV = False, weight = 2\<rparr>]])"
  by (simp add: hotspot_eval)

text \<open>
  C2, as stated, fails. On the one-line text
  \<^verbatim>\<open>foo { rectangles { 0 0 32 32 tileu weight=2 } }\<close> with no default texture name the
  parser does not return the mapping with one rect under "foo": all braces of a line are
  processed before the line's numbers are looked at, so both scopes are closed again when
  the rect would be filed, no texture name is active and the line is skipped.
\<close>

theorem parseHotspotRectFile_one_line_counterexample:
  "parseHotspotRectFile ''foo { rectangles { 0 0 32 32 tileu weight=2 } }'' None
     \<noteq> Inr (Success
          [''foo'' \<mapsto> [\<lparr>rect_min = (0, 0), rect_size = (32, 32), tileU = True,
                           tileV = False, weight = 2\<rparr>]])"
proof -
  let ?m = "[''foo'' \<mapsto> [\<lparr>rect_min = (0, 0), rect_size = (32, 32), tileU = True,
                             tileV = False, weight = 2\<rparr>]]"
  have "Map.empty ''foo'' \<noteq> ?m ''foo''"
    by simp
  then have "(Map.empty :: HotspotRectMap) \<noteq> ?m"
    by (metis (no_types))
  then show ?thesis
    by (simp add: one_line_parse)
qed

text \<open>
  C2, amended. With no default texture name, the one-line text yields the empty mapping;
  the same text with the rect on a line of its own inside the two scopes yields a mapping
  with exactly one rect, filed under "foo", with min = (0, 0), size = (32, 32), tileU true,
  tileV false and weight 2.
\<close>

theorem parseHotspotRectFile_example:
  "parseHotspotRectFile ''foo { rectangles { 0 0 32 32 tileu weight=2 } }'' None
     = Inr (Success Map.empty) \<and>
   parseHotspotRectFile
     (''foo {'' @ [CHR 0x0A] @ ''rectangles {'' @ [CHR 0x0A]
        @ ''0 0 32 32 tileu weight=2'' @ [CHR 0x0A] @ ''}'' @ [CHR 0x0A] @ ''}'') None
     = Inr (Success
         [''foo'' \<mapsto> [\<lparr>rect_min = (0, 0), rect_size = (32, 32), tileU = True,
                          tileV = False, weight = 2\<rparr>]])"
  using one_line_parse multi_line_parse by (rule conjI)

text \<open>
  C10. The parser is meant to skip what it cannot use and to return a mapping for every
  text, and it never returns an error value. But it does not return for every text: on
  a rect line that holds a number beyond the range of \<^verbatim>\<open>float\<close>, \<^verbatim>\<open>parseNumbers\<close>
  converts with \<^verbatim>\<open>std::stof\<close>, whose \<^verbatim>\<open>std::out_of_range\<close> nothing catches,
  where the weight is converted with the non-throwing \<^verbatim>\<open>kdl::str_to_float\<close>. With
  the default texture name "t", the line of the number \<open>10 ^ 40\<close> followed by
  \<^verbatim>\<open>0 1 1\<close> ends the call with that exception instead of a result.
\<close>

theorem parseHotspotRectFile_out_of_range:
  "parseHotspotRectFile ''10000000000000000000000000000000000000000 0 1 1'' (Some ''t'')
     = Inl out_of_range
   \<and> parseHotspotRectFile contents defaultTextureName \<noteq> Inr (Error msg)"
proof
  show "parseHotspotRectFile ''10000000000000000000000000000000000000000 0 1 1'' (Some ''t'')
     = Inl out_of_range"
    by (simp add: hotspot_eval)
  show "parseHotspotRectFile contents defaultTextureName \<noteq> Inr (Error msg)"
    by (simp add: parseHotspotRectFile_def split: sum.splits)
qed

section \<open>Properties of the map tokenizer\<close>

lemmas tokenizer_eval =
  emitToken.simps advance_while.simps readQuotedString_scan.simps eof_def curChar_def
  lookAhead_def advance_def Let_def mkToken_def slice_def readInteger_def readDecimal_def
  readUntil_def readDigits_def discardUntil_def discardWhile_def isDigit_def Whitespace_def
  NumberDelim_def initial_def readQuotedString_def isEscaped_def

lemma advance_while_stops:
  "eof input (advance_while P input st) \<or> \<not> P (curChar input (advance_while P input st))"
proof (induction P input st rule: advance_while.induct)
  case (1 P input st)
  then show ?case
    by (cases "\<not> eof input st \<and> P (curChar input st)")
      (auto simp: advance_while.simps [of P input st])
qed

lemma advance_while_skipped:
  "m_cur st \<le> i \<Longrightarrow> i < m_cur (advance_while P input st) \<Longrightarrow>
   i < length input \<and> P (input ! i)"
proof (induction P input st rule: advance_while.induct)
  case (1 P input st)
  show ?case
  proof (cases "\<not> eof input st \<and> P (curChar input st)")
    case True
    then have unf: "advance_while P input st = advance_while P input (advance input st)"
      by (simp add: advance_while.simps [of P input st])
    show ?thesis
    proof (cases "i = m_cur st")
      case True
      then show ?thesis
        using \<open>\<not> eof input st \<and> P (curChar input st)\<close> by (auto simp: eof_def curChar_def)
    next
      case False
      then have "m_cur (advance input st) \<le> i"
        using "1.prems"(1) by simp
      then show ?thesis
        using "1.IH" [OF True] "1.prems"(2) unf by simp
    qed
  next
    case False
    then have "advance_while P input st = st"
      by (auto simp: advance_while.simps [of P input st])
    then show ?thesis
      using "1.prems" by simp
  qed
qed

lemma emitToken_annotated_comment:
  assumes "m_cur st + 3 < length input"
    and "input ! m_cur st = CHR ''/''" and "input ! (m_cur st + 1) = CHR ''/''"
    and "input ! (m_cur st + 2) = CHR ''/''" and "input ! (m_cur st + 3) = CHR '' ''"
  shows "emitToken skipEol input st =
           Inr (\<lparr>tok_type = Comment, tok_data = ''///'', tok_position = m_cur st,
                  tok_line = m_line st, tok_column = m_column st\<rparr>,
                st\<lparr>m_cur := m_cur st + 3, m_column := m_column st + 3, m_escaped := False\<rparr>)"
proof -
  have d: "take 3 (drop (m_cur st) input) = ''///''"
    using assms by (simp add: list_eq_iff_nth_eq less_Suc_eq numeral_3_eq_3)
  show ?thesis
    using assms d
    by (simp add: emitToken.simps [of skipEol input st] eof_def curChar_def lookAhead_def
        advance_def Let_def mkToken_def slice_def eval_nat_numeral)
qed

lemma emitToken_plain_comment:
  assumes "m_cur st + 1 < length input"
    and "input ! m_cur st = CHR ''/''" and "input ! (m_cur st + 1) = CHR ''/''"
    and "\<not> (lookAhead input st 2 = CHR ''/'' \<and> lookAhead input st 3 = CHR '' '')"
  shows "emitToken skipEol input st =
           emitToken skipEol input
             (discardUntil [CHR 0x0A, CHR 0x0D] input (advance input (advance input st)))"
  using assms
  by (auto simp add: emitToken.simps [of skipEol input st] eof_def curChar_def lookAhead_def
        Let_def eval_nat_numeral)

lemma discardUntil_line_end:
  fixes input :: string
  defines "stop \<equiv> \<lambda>st. m_cur (discardUntil [CHR 0x0A, CHR 0x0D] input st)"
  shows "m_cur st \<le> stop st"
    and "\<forall>i. m_cur st \<le> i \<and> i < stop st \<longrightarrow> input ! i \<noteq> CHR 0x0A \<and> input ! i \<noteq> CHR 0x0D"
    and "stop st < length input \<longrightarrow> input ! stop st = CHR 0x0A \<or> input ! stop st = CHR 0x0D"
proof -
  let ?P = "\<lambda>c. c \<notin> set [CHR 0x0A, CHR 0x0D]"
  show "m_cur st \<le> stop st"
    unfolding stop_def discardUntil_def by (rule advance_while_mono)
  show "\<forall>i. m_cur st \<le> i \<and> i < stop st \<longrightarrow> input ! i \<noteq> CHR 0x0A \<and> input ! i \<noteq> CHR 0x0D"
    unfolding stop_def discardUntil_def
    using advance_while_skipped [of st _ ?P input] by auto
  show "stop st < length input \<longrightarrow> input ! stop st = CHR 0x0A \<or> input ! stop st = CHR 0x0D"
    unfolding stop_def discardUntil_def
    using advance_while_stops [of input ?P st] by (auto simp: eof_def curChar_def)
qed

text \<open>
  C1, as stated, fails in its first half: the payload of the comment token is not the
  comment text up to the end of the line. For the text \<^verbatim>\<open>/// note\<close> followed by a line
  feed the token holds the marker \<^verbatim>\<open>///\<close> alone, and the tokenizer stands right behind
  the marker.
\<close>

theorem emitToken_comment_payload_counterexample:
  "emitToken False (''/// note'' @ [CHR 0x0A]) initial
     = Inr (\<lparr>tok_type = Comment, tok_data = ''///'', tok_position = 0,
              tok_line = 1, tok_column = 1\<rparr>,
            \<lparr>m_cur = 3, m_line = 1, m_column = 4, m_escaped = False\<rparr>)
   \<and> ''///'' \<noteq> ''/// note''"
  by (simp add: tokenizer_eval)

text \<open>
  C1, amended. Where the tokenizer stands at \<^verbatim>\<open>//\<close>:
  if a third \<^verbatim>\<open>/\<close> and a space follow, the call returns one token of type Comment whose
  payload is the three-slash marker itself, and leaves the tokenizer right behind the
  marker, so that the text of the comment is what the next calls read;
  otherwise no token is emitted for the comment: the input up to the next line feed or
  carriage return, or to its end, is discarded, and the call returns what tokenizing
  from there returns.
\<close>

theorem emitToken_comment:
  assumes "m_cur st + 1 < length input"
    and "input ! m_cur st = CHR ''/''" and "input ! (m_cur st + 1) = CHR ''/''"
  shows
    "(lookAhead input st 2 = CHR ''/'' \<and> lookAhead input st 3 = CHR '' '' \<longrightarrow>
        emitToken skipEol input st =
          Inr (\<lparr>tok_type = Comment, tok_data = ''///'', tok_position = m_cur st,
                 tok_line = m_line st, tok_column = m_column st\<rparr>,
               st\<lparr>m_cur := m_cur st + 3, m_column := m_column st + 3, m_escaped := False\<rparr>))
     \<and>
     (\<not> (lookAhead input st 2 = CHR ''/'' \<and> lookAhead input st 3 = CHR '' '') \<longrightarrow>
        (let st' = discardUntil [CHR 0x0A, CHR 0x0D] input (advance input (advance input st))
         in emitToken skipEol input st = emitToken skipEol input st'
            \<and> m_cur st + 2 \<le> m_cur st'
            \<and> (\<forall>i. m_cur st + 2 \<le> i \<and> i < m_cur st' \<longrightarrow>
                   input ! i \<noteq> CHR 0x0A \<and> input ! i \<noteq> CHR 0x0D)
            \<and> (m_cur st' < length input \<longrightarrow>
                   input ! m_cur st' = CHR 0x0A \<or> input ! m_cur st' = CHR 0x0D)))"
proof (intro conjI impI)
  assume la: "lookAhead input st 2 = CHR ''/'' \<and> lookAhead input st 3 = CHR '' ''"
  then have "m_cur st + 3 < length input"
    by (auto simp: lookAhead_def split: if_splits)
  moreover from this la have "input ! (m_cur st + 2) = CHR ''/''"
    and "input ! (m_cur st + 3) = CHR '' ''"
    by (auto simp: lookAhead_def split: if_splits)
  ultimately show "emitToken skipEol input st =
          Inr (\<lparr>tok_type = Comment, tok_data = ''///'', tok_position = m_cur st,
                 tok_line = m_line st, tok_column = m_column st\<rparr>,
               st\<lparr>m_cur := m_cur st + 3, m_column := m_column st + 3, m_escaped := False\<rparr>)"
    using assms by (intro emitToken_annotated_comment)
next
  assume nla: "\<not> (lookAhead input st 2 = CHR ''/'' \<and> lookAhead input st 3 = CHR '' '')"
  define st2 where "st2 = advance input (advance input st)"
  have c2: "m_cur st2 = m_cur st + 2"
    by (simp add: st2_def)
  have e: "emitToken skipEol input st
             = emitToken skipEol input (discardUntil [CHR 0x0A, CHR 0x0D] input st2)"
    unfolding st2_def using assms nla by (rule emitToken_plain_comment)
  show "let st' = discardUntil [CHR 0x0A, CHR 0x0D] input (advance input (advance input st))
         in emitToken skipEol input st = emitToken skipEol input st'
            \<and> m_cur st + 2 \<le> m_cur st'
            \<and> (\<forall>i. m_cur st + 2 \<le> i \<and> i < m_cur st' \<longrightarrow>
                   input ! i \<noteq> CHR 0x0A \<and> input ! i \<noteq> CHR 0x0D)
            \<and> (m_cur st' < length input \<longrightarrow>
                   input ! m_cur st' = CHR 0x0A \<or> input ! m_cur st' = CHR 0x0D)"
    using e discardUntil_line_end [where st = st2 and input = input]
    unfolding Let_def st2_def [symmetric] c2 [symmetric] by blast
qed

theorem emitToken_comment_witness:
  "emitToken True (''/// a'' @ [CHR 0x0A] @ ''// b'' @ [CHR 0x0A] @ ''{'') initial
     = Inr (\<lparr>tok_type = Comment, tok_data = ''///'', tok_position = 0,
              tok_line = 1, tok_column = 1\<rparr>,
            \<lparr>m_cur = 3, m_line = 1, m_column = 4, m_escaped = False\<rparr>)
   \<and> emitToken True (''/// a'' @ [CHR 0x0A] @ ''// b'' @ [CHR 0x0A] @ ''{'')
        \<lparr>m_cur = 6, m_line = 2, m_column = 1, m_escaped = False\<rparr>
     = emitToken True (''/// a'' @ [CHR 0x0A] @ ''// b'' @ [CHR 0x0A] @ ''{'')
        \<lparr>m_cur = 10, m_line = 2, m_column = 5, m_escaped = False\<rparr>"
proof -
  let ?input = "''/// a'' @ [CHR 0x0A] @ ''// b'' @ [CHR 0x0A] @ ''{''"
  let ?st = "\<lparr>m_cur = 6, m_line = 2, m_column = 1, m_escaped = False\<rparr>"
  have a: "m_cur initial + 1 < length ?input" "?input ! m_cur initial = CHR ''/''"
    "?input ! (m_cur initial + 1) = CHR ''/''"
    "lookAhead ?input initial 2 = CHR ''/'' \<and> lookAhead ?input initial 3 = CHR '' ''"
    by (simp_all add: initial_def lookAhead_def)
  have b: "m_cur ?st + 1 < length ?input" "?input ! m_cur ?st = CHR ''/''"
    "?input ! (m_cur ?st + 1) = CHR ''/''"
    "\<not> (lookAhead ?input ?st 2 = CHR ''/'' \<and> lookAhead ?input ?st 3 = CHR '' '')"
    by (simp_all add: lookAhead_def)
  have d: "discardUntil [CHR 0x0A, CHR 0x0D] ?input (advance ?input (advance ?input ?st))
             = \<lparr>m_cur = 10, m_line = 2, m_column = 5, m_escaped = False\<rparr>"
    by (simp add: tokenizer_eval)
  have i: "initial\<lparr>m_cur := m_cur initial + 3, m_column := m_column initial + 3,
                    m_escaped := False\<rparr>
             = \<lparr>m_cur = 3, m_line = 1, m_column = 4, m_escaped = False\<rparr>"
    by (simp add: initial_def)
  from emitToken_comment [OF a(1-3), of True] a(4) i
  have first: "emitToken True ?input initial
     = Inr (\<lparr>tok_type = Comment, tok_data = ''///'', tok_position = 0,
              tok_line = 1, tok_column = 1\<rparr>,
            \<lparr>m_cur = 3, m_line = 1, m_column = 4, m_escaped = False\<rparr>)"
    by (simp add: initial_def)
  from emitToken_comment [OF b(1-3), of True] b(4) d
  have second: "emitToken True ?input ?st
     = emitToken True ?input \<lparr>m_cur = 10, m_line = 2, m_column = 5, m_escaped = False\<rparr>"
    by (simp add: Let_def)
  from first second show ?thesis
    by (rule conjI)
qed

text \<open>
  C6. With end-of-line tracking disabled, the text \<^verbatim>\<open>(0 0 0)\<close> is tokenized as an
  opening parenthesis, three integers \<^verbatim>\<open>0\<close> and a closing parenthesis, then the end of
  the input, with no end-of-line token; the text \<^verbatim>\<open>1.5)\<close> is tokenized as the decimal
  \<^verbatim>\<open>1.5\<close> and a closing parenthesis. The delimiters of a number are the white space
  characters and the closing parenthesis; on \<^verbatim>\<open>1.5)\<close> the integer reader, which is
  asked first, declines and the decimal reader accepts.
\<close>

theorem emitToken_numbers:
  "emitTokens 6 True ''(0 0 0)'' initial =
     Inr [\<lparr>tok_type = OParenthesis, tok_data = ''('', tok_position = 0,
            tok_line = 1, tok_column = 1\<rparr>,
          \<lparr>tok_type = Integer, tok_data = ''0'', tok_position = 1,
            tok_line = 1, tok_column = 2\<rparr>,
          \<lparr>tok_type = Integer, tok_data = ''0'', tok_position = 3,
            tok_line = 1, tok_column = 4\<rparr>,
          \<lparr>tok_type = Integer, tok_data = ''0'', tok_position = 5,
            tok_line = 1, tok_column = 6\<rparr>,
          \<lparr>tok_type = CParenthesis, tok_data = '')'', tok_position = 6,
            tok_line = 1, tok_column = 7\<rparr>,
          \<lparr>tok_type = Eof, tok_data = [], tok_position = 7,
            tok_line = 1, tok_column = 8\<rparr>]
   \<and> emitTokens 3 True ''1.5)'' initial =
     Inr [\<lparr>tok_type = Decimal, tok_data = ''1.5'', tok_position = 0,
            tok_line = 1, tok_column = 1\<rparr>,
          \<lparr>tok_type = CParenthesis, tok_data = '')'', tok_position = 3,
            tok_line = 1, tok_column = 4\<rparr>,
          \<lparr>tok_type = Eof, tok_data = [], tok_position = 4,
            tok_line = 1, tok_column = 5\<rparr>]
   \<and> set NumberDelim = set Whitespace \<union> {CHR '')''}
   \<and> readInteger NumberDelim ''1.5)'' initial = None
   \<and> readDecimal NumberDelim ''1.5)'' initial
       = Some \<lparr>m_cur = 3, m_line = 1, m_column = 4, m_escaped = False\<rparr>"
proof -
  have a: "emitTokens 6 True ''(0 0 0)'' initial =
     Inr [\<lparr>tok_type = OParenthesis, tok_data = ''('', tok_position = 0,
            tok_line = 1, tok_column = 1\<rparr>,
          \<lparr>tok_type = Integer, tok_data = ''0'', tok_position = 1,
            tok_line = 1, tok_column = 2\<rparr>,
          \<lparr>tok_type = Integer, tok_data = ''0'', tok_position = 3,
            tok_line = 1, tok_column = 4\<rparr>,
          \<lparr>tok_type = Integer, tok_data = ''0'', tok_position = 5,
            tok_line = 1, tok_column = 6\<rparr>,
          \<lparr>tok_type = CParenthesis, tok_data = '')'', tok_position = 6,
            tok_line = 1, tok_column = 7\<rparr>,
          \<lparr>tok_type = Eof, tok_data = [], tok_position = 7,
            tok_line = 1, tok_column = 8\<rparr>]"
    by (simp add: tokenizer_eval numeral_eq_Suc)
  have b: "emitTokens 3 True ''1.5)'' initial =
     Inr [\<lparr>tok_type = Decimal, tok_data = ''1.5'', tok_position = 0,
            tok_line = 1, tok_column = 1\<rparr>,
          \<lparr>tok_type = CParenthesis, tok_data = '')'', tok_position = 3,
            tok_line = 1, tok_column = 4\<rparr>,
          \<lparr>tok_type = Eof, tok_data = [], tok_position = 4,
            tok_line = 1, tok_column = 5\<rparr>]"
    by (simp add: tokenizer_eval numeral_eq_Suc)
  have c: "set NumberDelim = set Whitespace \<union> {CHR '')''}"
    by (simp add: NumberDelim_def)
  have d: "readInteger NumberDelim ''1.5)'' initial = None"
    by (simp add: tokenizer_eval)
  have e: "readDecimal NumberDelim ''1.5)'' initial
       = Some \<lparr>m_cur = 3, m_line = 1, m_column = 4, m_escaped = False\<rparr>"
    by (simp add: tokenizer_eval)
  from a b c d e show ?thesis
    by blast
qed

section \<open>Properties of Bezier patches\<close>

subsection \<open>Mirroring the columns\<close>

lemma length_swap_at [simp]: "length (swap_at i j xs) = length xs"
  by (simp add: swap_at_def)

lemma length_swap_rows [simp]: "length (swap_rows cols c d j xs) = length xs"
  by (induction j) (simp_all add: swap_rows_def)

lemma length_swap_cols [simp]: "length (swap_cols rows cols k xs) = length xs"
  by (induction k) (simp_all add: swap_cols_def)

lemma set_swap_at: "i < length xs \<Longrightarrow> j < length xs \<Longrightarrow> set (swap_at i j xs) = set xs"
  unfolding swap_at_def by (simp add: set_swap)

lemma grid_index_less:
  assumes "r < rows" "c < cols"
  shows "r * cols + c < rows * (cols :: nat)"
proof -
  have "r * cols + c < r * cols + cols" using assms by simp
  also have "\<dots> = Suc r * cols" by simp
  also have "\<dots> \<le> rows * cols" using assms by (intro mult_le_mono1) simp
  finally show ?thesis .
qed

lemma swap_rows_Suc: "swap_rows cols c d (Suc j) xs = swap_at (j * cols + c) (j * cols + d) (swap_rows cols c d j xs)"
  by (simp add: swap_rows_def)

lemma swap_cols_Suc: "swap_cols rows cols (Suc k) xs = swap_rows cols k (cols - k - 1) rows (swap_cols rows cols k xs)"
  by (simp add: swap_cols_def)

lemma set_swap_rows:
  assumes "length xs = rows * cols" "c < cols" "d < cols" "j \<le> rows"
  shows "set (swap_rows cols c d j xs) = set xs"
  using assms(4)
proof (induction j)
  case 0
  show ?case by (simp add: swap_rows_def)
next
  case (Suc j)
  then have "j < rows" by simp
  then have "j * cols + c < length xs" "j * cols + d < length xs"
    using assms by (simp_all add: grid_index_less)
  then show ?case
    using Suc by (simp add: swap_rows_Suc set_swap_at)
qed

lemma set_swap_cols:
  assumes "length xs = rows * cols" "k \<le> cols div 2"
  shows "set (swap_cols rows cols k xs) = set xs"
  using assms(2)
proof (induction k)
  case 0
  show ?case by (simp add: swap_cols_def)
next
  case (Suc k)
  then have "k < cols" "cols - k - 1 < cols" by auto
  then show ?case
    using Suc assms(1) by (simp add: swap_cols_Suc set_swap_rows [where rows = rows])
qed

lemma nth_swap_at:
  "i < length xs \<Longrightarrow> j < length xs \<Longrightarrow> n < length xs \<Longrightarrow>
   swap_at i j xs ! n = (if n = j then xs ! i else if n = i then xs ! j else xs ! n)"
  by (simp add: swap_at_def nth_list_update)

lemma grid_index_eq:
  assumes "c < cols" "c' < cols"
  shows "(r * cols + c = r' * cols + c') = (r = r' \<and> c = (c' :: nat))"
proof
  assume e: "r * cols + c = r' * cols + c'"
  then have "(r * cols + c) div cols = (r' * cols + c') div cols"
    and "(r * cols + c) mod cols = (r' * cols + c') mod cols" by simp_all
  then show "r = r' \<and> c = c'" using assms by simp
qed simp

lemma nth_swap_rows:
  assumes len: "length xs = rows * cols" and c: "c < cols" and d: "d < cols"
  shows "j \<le> rows \<Longrightarrow> r < rows \<Longrightarrow> e < cols \<Longrightarrow>
         swap_rows cols c d j xs ! (r * cols + e) =
           (if r < j \<and> e = c then xs ! (r * cols + d)
            else if r < j \<and> e = d then xs ! (r * cols + c)
            else xs ! (r * cols + e))"
proof (induction j arbitrary: r e)
  case 0
  show ?case by (simp add: swap_rows_def)
next
  case (Suc j)
  then have jr: "j < rows" and j': "j \<le> rows" by simp_all
  let ?ys = "swap_rows cols c d j xs"
  have lys: "length ?ys = rows * cols" using len by simp
  have ic: "j * cols + c < length ?ys" and id: "j * cols + d < length ?ys"
    and ie: "r * cols + e < length ?ys"
    using jr Suc.prems c d lys by (simp_all add: grid_index_less)
  have yc: "?ys ! (j * cols + c) = xs ! (j * cols + c)"
    using Suc.IH [OF j' jr c] by simp
  have yd: "?ys ! (j * cols + d) = xs ! (j * cols + d)"
    using Suc.IH [OF j' jr d] by simp
  have ye: "?ys ! (r * cols + e) =
           (if r < j \<and> e = c then xs ! (r * cols + d)
            else if r < j \<and> e = d then xs ! (r * cols + c)
            else xs ! (r * cols + e))"
    using Suc.IH [OF j' Suc.prems(2,3)] .
  have "swap_rows cols c d (Suc j) xs ! (r * cols + e) =
          (if r = j \<and> e = d then xs ! (j * cols + c)
           else if r = j \<and> e = c then xs ! (j * cols + d)
           else ?ys ! (r * cols + e))"
    using c d Suc.prems(3)
    by (simp add: swap_rows_Suc nth_swap_at [OF ic id ie] yc yd grid_index_eq)
  then show ?case
    using ye by (auto simp: less_Suc_eq)
qed

lemma nth_swap_cols:
  assumes len: "length xs = rows * cols"
  shows "k \<le> cols div 2 \<Longrightarrow> r < rows \<Longrightarrow> e < cols \<Longrightarrow>
         swap_cols rows cols k xs ! (r * cols + e) =
           (if e < k \<or> cols - k \<le> e then xs ! (r * cols + (cols - e - 1))
            else xs ! (r * cols + e))"
proof (induction k arbitrary: r e)
  case 0
  then show ?case by (simp add: swap_cols_def)
next
  case (Suc k)
  then have k': "k \<le> cols div 2" and kc: "k < cols" and dc: "cols - k - 1 < cols"
    and kd: "k < cols - k - 1"
    by auto
  let ?ys = "swap_cols rows cols k xs"
  have lys: "length ?ys = rows * cols" using len by simp
  have step: "swap_cols rows cols (Suc k) xs ! (r * cols + e) =
           (if e = k then ?ys ! (r * cols + (cols - k - 1))
            else if e = cols - k - 1 then ?ys ! (r * cols + k)
            else ?ys ! (r * cols + e))"
    using nth_swap_rows [OF lys kc dc order_refl Suc.prems(2,3)] Suc.prems(2)
    by (simp add: swap_cols_Suc)
  have y1: "?ys ! (r * cols + (cols - k - 1)) = xs ! (r * cols + (cols - k - 1))"
    using Suc.IH [OF k' Suc.prems(2) dc] kd by auto
  have y2: "?ys ! (r * cols + k) = xs ! (r * cols + k)"
    using Suc.IH [OF k' Suc.prems(2) kc] kd by auto
  have y3: "?ys ! (r * cols + e) =
           (if e < k \<or> cols - k \<le> e then xs ! (r * cols + (cols - e - 1))
            else xs ! (r * cols + e))"
    using Suc.IH [OF k' Suc.prems(2,3)] .
  have k2: "cols - (cols - k - 1) - 1 = k"
    using kd by simp
  show ?case
    unfolding step y1 y2 y3 using Suc.prems(3) kd k2
    by (auto simp: less_Suc_eq)
qed

lemma nth_swap_cols_all:
  assumes len: "length xs = rows * cols" and r: "r < rows" and e: "e < cols"
  shows "swap_cols rows cols (cols div 2) xs ! (r * cols + e) = xs ! (r * cols + (cols - e - 1))"
proof (cases "e < cols div 2 \<or> cols - cols div 2 \<le> e")
  case True
  then show ?thesis
    using nth_swap_cols [OF len order_refl r e] by simp
next
  case False
  then have "cols - e - 1 = e" using e by linarith
  then show ?thesis
    using nth_swap_cols [OF len order_refl r e] False by simp
qed

lemma fold_mirror_row_step:
  "fold (mirror_row_step cols c d) [0..<j] (cps, ns) =
     (swap_rows cols c d j cps, if ns \<noteq> [] then swap_rows cols c d j ns else ns)"
proof (induction j)
  case 0
  show ?case by (simp add: swap_rows_def)
next
  case (Suc j)
  have "ns \<noteq> [] \<Longrightarrow> swap_rows cols c d j ns \<noteq> []"
    using length_swap_rows [of cols c d j ns] by (metis length_0_conv)
  then show ?case
    using Suc by (simp add: mirror_row_step_def swap_rows_Suc)
qed

lemma mirror_columns_eq:
  "mirror_columns rows cols (cps, ns) =
     (swap_cols rows cols (cols div 2) cps,
      if ns \<noteq> [] then swap_cols rows cols (cols div 2) ns else ns)"
proof -
  have "fold (\<lambda>c. fold (mirror_row_step cols c (cols - c - 1)) [0..<rows]) [0..<k] (cps, ns) =
     (swap_cols rows cols k cps, if ns \<noteq> [] then swap_cols rows cols k ns else ns)" for k
  proof (induction k)
    case 0
    show ?case by (simp add: swap_cols_def)
  next
    case (Suc k)
    have "ns \<noteq> [] \<Longrightarrow> swap_cols rows cols k ns \<noteq> []"
      using length_swap_cols [of rows cols k ns] by (metis length_0_conv)
    then show ?case
      using Suc by (simp add: fold_mirror_row_step swap_cols_Suc)
  qed
  then show ?thesis
    by (simp add: mirror_columns_def)
qed


subsection \<open>The bounds builder computes the bounding box\<close>

lemma fold_builder_add_Some:
  "fold (\<lambda>point builder. builder_add (xyz point) builder) ps (Some b)
     = Some (fold (\<lambda>point bb. merge_point bb (xyz point)) ps b)"
  by (induction ps arbitrary: b) (simp_all add: builder_add_def)

lemma aabb_Cons:
  "ps \<noteq> [] \<Longrightarrow> aabb (p # ps) = merge_point (aabb ps) p"
  by (cases p) (simp add: aabb_def merge_point_def vx_def vy_def vz_def min.commute max.commute)

lemma aabb_single: "aabb [p] = \<lparr>bbox_min = p, bbox_max = p\<rparr>"
  by (cases p) (simp add: aabb_def vx_def vy_def vz_def)

lemma merge_point_commute:
  "merge_point (merge_point b p) q = merge_point (merge_point b q) p"
  by (cases p; cases q; cases "bbox_min b"; cases "bbox_max b")
    (simp add: merge_point_def min.left_commute min.commute max.commute max.left_commute min.assoc max.assoc)

lemma fold_merge_aabb:
  "fold (\<lambda>point bb. merge_point bb (xyz point)) ps \<lparr>bbox_min = p, bbox_max = p\<rparr>
     = aabb (p # map xyz ps)"
proof (induction ps rule: rev_induct)
  case Nil
  show ?case by (simp add: aabb_single)
next
  case (snoc q qs)
  have "aabb (p # map xyz (qs @ [q])) = aabb (xyz q # p # map xyz qs)"
    by (simp add: aabb_def insert_commute Un_commute)
  also have "\<dots> = merge_point (aabb (p # map xyz qs)) (xyz q)"
    by (rule aabb_Cons) simp
  finally show ?case
    using snoc by simp
qed

lemma computeBounds_aabb:
  assumes "points \<noteq> []"
  shows "computeBounds points = Some (aabb (map xyz points))"
proof (cases points)
  case Nil
  then show ?thesis using assms by simp
next
  case (Cons a list)
  have "computeBounds (a # list)
          = fold (\<lambda>point builder. builder_add (xyz point) builder) list
              (Some \<lparr>bbox_min = xyz a, bbox_max = xyz a\<rparr>)"
    by (simp add: computeBounds_def builder_add_def [of _ None])
  also have "\<dots> = Some (aabb (xyz a # map xyz list))"
    by (simp only: fold_builder_add_Some fold_merge_aabb)
  finally show ?thesis
    using Cons by simp
qed

lemma aabb_map_cong: "set ps = set qs \<Longrightarrow> aabb (map f ps) = aabb (map f qs)"
  by (simp add: aabb_def)


subsection \<open>Construction, assignment and transformation\<close>

lemma invariant_nonempty: "patch_invariant p \<Longrightarrow> m_controlPoints p \<noteq> []"
  by (auto simp: patch_invariant_def)

lemma odd_product_nonzero:
  fixes r c :: size_t
  assumes "r mod 2 = 1" "c mod 2 = 1"
  shows "unat (r * c) \<noteq> 0"
proof -
  have "odd r" "odd c"
    using assms by (simp_all add: odd_iff_mod_2_eq_one)
  then have o: "odd (r * c)"
    by simp
  have "r * c \<noteq> 0"
  proof
    assume "r * c = 0"
    then have "even (r * c)"
      by simp
    with o show False
      by simp
  qed
  then show ?thesis
    by (simp add: unat_eq_0)
qed

lemma unat_odd:
  fixes r :: size_t
  assumes "r mod 2 = 1"
  shows "unat r mod 2 = 1"
proof -
  have "unat (r mod 2) = unat r mod 2"
    by (simp add: unat_mod)
  then show ?thesis
    using assms by simp
qed

lemma makeBezierPatch_ok:
  assumes "makeBezierPatch r c cps name sc sf sv ns = Inr p"
  shows "bounds_current p \<and> (patch_invariant p \<longleftrightarrow> unat r * unat c < 2 ^ 64)"
proof -
  from assms have p: "p = \<lparr>m_pointRowCount = unat r, m_pointColumnCount = unat c,
                m_controlPoints = cps, m_controlNormals = ns,
                m_bounds = computeBounds cps, m_materialName = name,
                m_surfaceContents = sc, m_surfaceFlags = sf, m_surfaceValue = sv\<rparr>"
    and c: "2 < r" "2 < c" "r mod 2 = 1" "c mod 2 = 1" "length cps = unat (r * c)"
      "ns = [] \<or> length ns = unat (r * c)"
    by (auto simp: makeBezierPatch_def split: if_splits)
  have "cps \<noteq> []"
    using odd_product_nonzero [OF c(3) c(4)] c(5) by auto
  then have bc: "bounds_current p"
    by (simp add: p bounds_current_def computeBounds_aabb)
  have u: "2 < unat r" "2 < unat c"
    using c(1) c(2) by (simp_all add: word_less_nat_alt)
  have m: "unat r mod 2 = 1" "unat c mod 2 = 1"
    using c(3) c(4) by (simp_all add: unat_odd)
  have prod: "unat (r * c) = (unat r * unat c) mod 2 ^ 64"
    by (simp add: unat_word_ariths)
  have "patch_invariant p \<longleftrightarrow> unat (r * c) = unat r * unat c"
    using u m c(5) c(6) by (auto simp: p patch_invariant_def)
  also have "\<dots> \<longleftrightarrow> unat r * unat c < 2 ^ 64"
  proof
    assume "unat (r * c) = unat r * unat c"
    then have "(unat r * unat c) mod 2 ^ 64 = unat r * unat c"
      using prod by simp
    moreover have "(unat r * unat c) mod 2 ^ 64 < (2 ^ 64 :: nat)"
      by simp
    ultimately show "unat r * unat c < 2 ^ 64"
      by simp
  next
    assume "unat r * unat c < 2 ^ 64"
    then show "unat (r * c) = unat r * unat c"
      using prod by simp
  qed
  finally show ?thesis
    using bc by simp
qed

lemma point_index_less:
  assumes inv: "patch_invariant p"
    and rc: "row < m_pointRowCount p" "col < m_pointColumnCount p"
  shows "point_index p row col < length (m_controlPoints p)"
proof -
  have "point_index p row col \<le> row * m_pointColumnCount p + col"
    by (simp add: point_index_def)
  also have "\<dots> < m_pointRowCount p * m_pointColumnCount p"
    using rc by (rule grid_index_less)
  also have "\<dots> = length (m_controlPoints p)"
    using inv by (simp add: patch_invariant_def)
  finally show ?thesis .
qed

lemma setControlPoint_ok:
  assumes s: "setControlPoint p row col cp = Inr p'"
  shows "bounds_current p' \<and> (patch_invariant p \<longrightarrow> patch_invariant p')"
proof -
  let ?cps = "(m_controlPoints p)[point_index p row col := cp]"
  from s have p': "p' = p\<lparr>m_controlPoints := ?cps, m_bounds := computeBounds ?cps\<rparr>"
    and i: "point_index p row col < length (m_controlPoints p)"
    by (auto simp: setControlPoint_def Let_def split: if_splits)
  have inv': "patch_invariant p \<longrightarrow> patch_invariant p'"
    by (simp add: p' patch_invariant_def)
  have "?cps \<noteq> []"
    using i by auto
  then have "bounds_current p'"
    by (simp add: p' bounds_current_def computeBounds_aabb)
  with inv' show ?thesis
    by simp
qed

lemma setControlPoint_defined:
  assumes "patch_invariant p" "row < m_pointRowCount p" "col < m_pointColumnCount p"
  shows "\<exists>p'. setControlPoint p row col cp = Inr p'"
  using assms point_index_less [OF assms] by (simp add: setControlPoint_def Let_def)

lemma assign_controlPoint_ok:
  assumes s: "assign_controlPoint p row col cp = Inr p'"
  shows "m_controlPoints p' = (m_controlPoints p)[point_index p row col := cp]
     \<and> m_bounds p' = m_bounds p \<and> (patch_invariant p \<longrightarrow> patch_invariant p')"
proof -
  from s have "p' = p\<lparr>m_controlPoints := (m_controlPoints p)[point_index p row col := cp]\<rparr>"
    by (auto simp: assign_controlPoint_def controlPoint_ref_def split: if_splits)
  then show ?thesis
    by (simp add: patch_invariant_def)
qed

lemma transform_eq:
  "transform vm T p =
     (let cps = map (transform_point vm T) (m_controlPoints p);
          ns = (if m_controlNormals p \<noteq> [] then
                  map (transform_normal vm (normalTransform vm T)) (m_controlNormals p)
                else m_controlNormals p)
      in if is_orientation_preserving_transform vm T
         then p\<lparr>m_controlPoints := cps, m_controlNormals := ns, m_bounds := computeBounds cps\<rparr>
         else p\<lparr>m_controlPoints :=
                   swap_cols (m_pointRowCount p) (m_pointColumnCount p)
                     (m_pointColumnCount p div 2) cps,
                 m_controlNormals :=
                   (if ns \<noteq> [] then
                      swap_cols (m_pointRowCount p) (m_pointColumnCount p)
                        (m_pointColumnCount p div 2) ns
                    else ns),
                 m_bounds := computeBounds cps\<rparr>)"
  by (simp add: transform_def Let_def mirror_columns_eq computeBounds_def)

lemma transform_ok:
  assumes inv: "patch_invariant p"
  shows "patch_invariant (transform vm T p) \<and> bounds_current (transform vm T p)"
proof -
  let ?cps = "map (transform_point vm T) (m_controlPoints p)"
  let ?rows = "m_pointRowCount p" and ?cols = "m_pointColumnCount p"
  have len: "length ?cps = ?rows * ?cols"
    using inv by (simp add: patch_invariant_def)
  have ne: "?cps \<noteq> []"
    using invariant_nonempty [OF inv] by simp
  have cb: "computeBounds ?cps = Some (aabb (map xyz ?cps))"
    using ne by (rule computeBounds_aabb)
  have "set (swap_cols ?rows ?cols (?cols div 2) ?cps) = set ?cps"
    using len by (rule set_swap_cols) simp
  then have sw: "aabb (map xyz (swap_cols ?rows ?cols (?cols div 2) ?cps)) = aabb (map xyz ?cps)"
    by (rule aabb_map_cong)
  have inv': "patch_invariant (transform vm T p)"
    using inv by (auto simp: transform_eq Let_def patch_invariant_def)
  have "bounds_current (transform vm T p)"
    using cb sw by (simp add: transform_eq Let_def bounds_current_def)
  with inv' show ?thesis ..
qed

lemma example_patch_invariant: "patch_invariant example_patch"
  by (simp add: patch_invariant_def example_patch_def)

text \<open>
  C7. A transformation that does not preserve the orientation mirrors the grid of
  control points along the columns: in the transformed patch of a patch that satisfies
  the construction contract, the control point in row \<open>r\<close> and column \<open>c\<close> is the
  transformed control point of row \<open>r\<close> and column \<open>cols - c - 1\<close> of the original,
  for every row and column; when the patch has control normals, its normal there is the
  transformed normal of that same place. The counts and the sizes stay as they were.
\<close>

theorem transform_mirrors_columns:
  assumes inv: "patch_invariant p"
    and rev: "\<not> is_orientation_preserving_transform vm T"
    and r: "r < m_pointRowCount p" and c: "c < m_pointColumnCount p"
  shows "m_controlPoints (transform vm T p) ! (r * m_pointColumnCount p + c)
           = transform_point vm T
               (m_controlPoints p ! (r * m_pointColumnCount p + (m_pointColumnCount p - c - 1)))
         \<and> (m_controlNormals p \<noteq> [] \<longrightarrow>
              m_controlNormals (transform vm T p) ! (r * m_pointColumnCount p + c)
                = transform_normal vm (normalTransform vm T)
                    (m_controlNormals p
                       ! (r * m_pointColumnCount p + (m_pointColumnCount p - c - 1))))
         \<and> m_pointRowCount (transform vm T p) = m_pointRowCount p
         \<and> m_pointColumnCount (transform vm T p) = m_pointColumnCount p
         \<and> length (m_controlPoints (transform vm T p)) = length (m_controlPoints p)
         \<and> length (m_controlNormals (transform vm T p)) = length (m_controlNormals p)"
proof -
  let ?rows = "m_pointRowCount p" and ?cols = "m_pointColumnCount p"
  let ?cps = "map (transform_point vm T) (m_controlPoints p)"
  let ?ns = "map (transform_normal vm (normalTransform vm T)) (m_controlNormals p)"
  have len: "length ?cps = ?rows * ?cols"
    using inv by (simp add: patch_invariant_def)
  have d: "?cols - c - 1 < ?cols"
    using c by simp
  have i: "r * ?cols + (?cols - c - 1) < ?rows * ?cols"
    using r d by (rule grid_index_less)
  have cps: "m_controlPoints (transform vm T p) = swap_cols ?rows ?cols (?cols div 2) ?cps"
    using rev by (simp add: transform_eq Let_def)
  have ns: "m_controlNormals (transform vm T p)
              = (if m_controlNormals p \<noteq> [] then swap_cols ?rows ?cols (?cols div 2) ?ns
                 else [])"
    using rev by (simp add: transform_eq Let_def)
  have 1: "m_controlPoints (transform vm T p) ! (r * ?cols + c)
             = transform_point vm T (m_controlPoints p ! (r * ?cols + (?cols - c - 1)))"
    using nth_swap_cols_all [OF len r c] i len by (simp add: cps)
  have 2: "m_controlNormals (transform vm T p) ! (r * ?cols + c)
             = transform_normal vm (normalTransform vm T)
                 (m_controlNormals p ! (r * ?cols + (?cols - c - 1)))"
    if ne: "m_controlNormals p \<noteq> []"
  proof -
    have lenn: "length ?ns = ?rows * ?cols"
      using inv ne by (simp add: patch_invariant_def)
    show ?thesis
      using nth_swap_cols_all [OF lenn r c] i lenn ne by (simp add: ns)
  qed
  have 3: "m_pointRowCount (transform vm T p) = ?rows"
    "m_pointColumnCount (transform vm T p) = ?cols"
    by (simp_all add: transform_eq Let_def)
  have 4: "length (m_controlPoints (transform vm T p)) = length (m_controlPoints p)"
    "length (m_controlNormals (transform vm T p)) = length (m_controlNormals p)"
    by (simp_all add: cps ns)
  from 1 2 3 4 show ?thesis
    by blast
qed

theorem transform_mirrors_columns_witness:
  "patch_invariant example_patch
   \<and> \<not> is_orientation_preserving_transform example_vm (- 1)
   \<and> m_controlPoints (transform example_vm (- 1) example_patch) ! (1 * 5 + 0)
       = \<lparr>xyz = (- 4, 1, 4), tex_u = 4, tex_v = 1\<rparr>
   \<and> m_controlNormals (transform example_vm (- 1) example_patch) ! (1 * 5 + 0) = (- 4, 1, 1)"
proof -
  have h: "\<not> is_orientation_preserving_transform example_vm (- 1)"
    "(1::nat) < m_pointRowCount example_patch" "(0::nat) < m_pointColumnCount example_patch"
    by (simp_all add: example_vm_def example_patch_def)
  have n: "m_controlNormals example_patch \<noteq> []"
    by (simp add: example_patch_def)
  have e: "transform_point example_vm (- 1)
             (m_controlPoints example_patch
                ! (1 * m_pointColumnCount example_patch
                   + (m_pointColumnCount example_patch - 0 - 1)))
           = \<lparr>xyz = (- 4, 1, 4), tex_u = 4, tex_v = 1\<rparr>"
    "transform_normal example_vm (normalTransform example_vm (- 1))
             (m_controlNormals example_patch
                ! (1 * m_pointColumnCount example_patch
                   + (m_pointColumnCount example_patch - 0 - 1)))
           = (- 4, 1, 1)"
    by (simp_all add: example_vm_def example_patch_def transform_point_def
        transform_normal_def normalTransform_def)
  have c: "m_pointColumnCount example_patch = 5"
    by (simp add: example_patch_def)
  show ?thesis
    using transform_mirrors_columns [OF example_patch_invariant h] n e h(1)
      example_patch_invariant
    by (simp add: c)
qed

text \<open>
  C9, as stated, fails: not every change of a control point is followed by a
  recomputation of the bounds. The example patch is what the constructor returns for its
  points, and its stored bounds are the bounding box of its points; after the assignment
  of a point outside that box through the reference that \<^verbatim>\<open>controlPoint(0, 0)\<close>
  returns, the stored bounds are still the old box and no longer the bounding box of the
  control points.
\<close>

theorem controlPoint_reference_counterexample:
  "makeBezierPatch 3 5 (m_controlPoints example_patch) ''common/caulk'' 0 0 0
       (m_controlNormals example_patch) = Inr example_patch
   \<and> bounds_current example_patch
   \<and> assign_controlPoint example_patch 0 0 \<lparr>xyz = (100, 100, 100), tex_u = 0, tex_v = 0\<rparr>
       = Inr (example_patch
               \<lparr>m_controlPoints :=
                  (m_controlPoints example_patch)
                    [0 := \<lparr>xyz = (100, 100, 100), tex_u = 0, tex_v = 0\<rparr>]\<rparr>)
   \<and> m_bounds
        (example_patch
           \<lparr>m_controlPoints :=
              (m_controlPoints example_patch)
                [0 := \<lparr>xyz = (100, 100, 100), tex_u = 0, tex_v = 0\<rparr>]\<rparr>)
       = Some \<lparr>bbox_min = (0, 0, 0), bbox_max = (4, 2, 8)\<rparr>
   \<and> \<not> bounds_current
        (example_patch
           \<lparr>m_controlPoints :=
              (m_controlPoints example_patch)
                [0 := \<lparr>xyz = (100, 100, 100), tex_u = 0, tex_v = 0\<rparr>]\<rparr>)"
proof -
  let ?np = "\<lparr>xyz = (100, 100, 100), tex_u = 0, tex_v = (0::int)\<rparr>"
  let ?p1 = "example_patch\<lparr>m_controlPoints := (m_controlPoints example_patch)[0 := ?np]\<rparr>"
  have mk: "makeBezierPatch 3 5 (m_controlPoints example_patch) ''common/caulk'' 0 0 0
       (m_controlNormals example_patch) = Inr example_patch"
    by (simp add: makeBezierPatch_def example_patch_def computeBounds_def builder_add_def
        merge_point_def)
  have bc: "bounds_current example_patch"
    using makeBezierPatch_ok [OF mk] by simp
  have as: "assign_controlPoint example_patch 0 0 ?np = Inr ?p1"
    by (simp add: assign_controlPoint_def controlPoint_ref_def point_index_def
        example_patch_def)
  have mb: "m_bounds ?p1 = Some \<lparr>bbox_min = (0, 0, 0), bbox_max = (4, 2, 8)\<rparr>"
    by (simp add: example_patch_def)
  have ne: "m_controlPoints ?p1 \<noteq> []"
    by (simp add: example_patch_def)
  have "computeBounds (m_controlPoints ?p1)
          = Some \<lparr>bbox_min = (0, 0, 0), bbox_max = (100, 100, 100)\<rparr>"
    by (simp add: example_patch_def computeBounds_def builder_add_def merge_point_def)
  then have "Some (aabb (map xyz (m_controlPoints ?p1)))
          = Some \<lparr>bbox_min = (0, 0, 0), bbox_max = (100, 100, 100)\<rparr>"
    using computeBounds_aabb [OF ne] by simp
  then have nb: "\<not> bounds_current ?p1"
    unfolding bounds_current_def mb by simp
  from mk bc as mb nb show ?thesis
    by (intro conjI)
qed

text \<open>
  C9, amended. The stored bounds are the axis-aligned bounding box of the control point
  positions as they are after the construction and after every \<^verbatim>\<open>setControlPoint\<close>
  and \<^verbatim>\<open>transform\<close>, which recompute them from the control points whatever was
  stored before. The constructor returns such a patch wherever its contract holds; the
  counts of that patch multiply to the number of its control points unless their product
  wraps around. \<^verbatim>\<open>setControlPoint\<close> returns such a patch wherever it returns one, which
  it does for every row and column of a patch whose counts multiply to the number of its
  control points, and \<^verbatim>\<open>transform\<close> turns such a patch into one of which both are
  true, also when it mirrors the columns. An assignment through the reference that
  \<^verbatim>\<open>controlPoint(row, col)\<close> returns changes the control point and leaves the stored
  bounds as they were: they are current again after the next \<^verbatim>\<open>setControlPoint\<close> or
  \<^verbatim>\<open>transform\<close>.
\<close>

theorem bounds_recomputed:
  fixes p q :: "'a::linorder BezierPatch"
  shows
    "(makeBezierPatch rows cols cps name sc sf sv ns = Inr q \<longrightarrow>
        bounds_current q \<and> (patch_invariant q \<longleftrightarrow> unat rows * unat cols < 2 ^ 64))
     \<and> (setControlPoint p row col cp = Inr p1 \<longrightarrow>
          bounds_current p1 \<and> (patch_invariant p \<longrightarrow> patch_invariant p1))
     \<and> (patch_invariant p \<and> row < m_pointRowCount p \<and> col < m_pointColumnCount p \<longrightarrow>
          (\<exists>p'. setControlPoint p row col cp = Inr p'))
     \<and> (patch_invariant p \<longrightarrow>
          patch_invariant (transform vm T p) \<and> bounds_current (transform vm T p))
     \<and> (assign_controlPoint p row col cp = Inr p2 \<longrightarrow>
          m_controlPoints p2 = (m_controlPoints p)[point_index p row col := cp]
          \<and> m_bounds p2 = m_bounds p
          \<and> (patch_invariant p \<longrightarrow> patch_invariant p2))"
  using makeBezierPatch_ok [of rows cols cps name sc sf sv ns q]
    setControlPoint_ok [of p row col cp p1] setControlPoint_defined [of p row col cp]
    transform_ok [of p vm T] assign_controlPoint_ok [of p row col cp p2]
  by blast

theorem bounds_recomputed_witness:
  "makeBezierPatch 3 5 (m_controlPoints example_patch) ''common/caulk'' 0 0 0
       (m_controlNormals example_patch) = Inr example_patch
   \<and> bounds_current example_patch \<and> patch_invariant example_patch
   \<and> assign_controlPoint example_patch 1 2 \<lparr>xyz = (9, - 9, 9), tex_u = 0, tex_v = 0\<rparr>
       = Inr (example_patch
               \<lparr>m_controlPoints :=
                  (m_controlPoints example_patch)
                    [7 := \<lparr>xyz = (9, - 9, 9), tex_u = 0, tex_v = 0\<rparr>]\<rparr>)
   \<and> m_bounds
        (example_patch
           \<lparr>m_controlPoints :=
              (m_controlPoints example_patch)
                [7 := \<lparr>xyz = (9, - 9, 9), tex_u = 0, tex_v = 0\<rparr>]\<rparr>)
       = m_bounds example_patch
   \<and> setControlPoint example_patch 1 2 \<lparr>xyz = (9, - 9, 9), tex_u = 0, tex_v = 0\<rparr>
       = Inr (example_patch
               \<lparr>m_controlPoints :=
                  (m_controlPoints example_patch)
                    [7 := \<lparr>xyz = (9, - 9, 9), tex_u = 0, tex_v = 0\<rparr>],
                m_bounds := Some \<lparr>bbox_min = (0, - 9, 0), bbox_max = (9, 2, 9)\<rparr>\<rparr>)
   \<and> bounds_current
        (example_patch
           \<lparr>m_controlPoints :=
              (m_controlPoints example_patch)
                [7 := \<lparr>xyz = (9, - 9, 9), tex_u = 0, tex_v = 0\<rparr>],
            m_bounds := Some \<lparr>bbox_min = (0, - 9, 0), bbox_max = (9, 2, 9)\<rparr>\<rparr>)
   \<and> m_bounds (transform example_vm (- 1) example_patch)
       = Some \<lparr>bbox_min = (- 4, 0, 0), bbox_max = (0, 2, 8)\<rparr>
   \<and> bounds_current (transform example_vm (- 1) example_patch)
   \<and> makeBezierPatch 3 6148914691236517207 (m_controlPoints wrapped_patch)
         ''common/caulk'' 0 0 0 [] = Inr wrapped_patch
   \<and> bounds_current wrapped_patch \<and> \<not> patch_invariant wrapped_patch
   \<and> setControlPoint wrapped_patch 2 0 \<lparr>xyz = (9, - 9, 9), tex_u = 0, tex_v = 0\<rparr>
       = Inl UndefinedBehaviour"
proof -
  let ?np = "\<lparr>xyz = (9, - 9, 9), tex_u = 0, tex_v = (0::int)\<rparr>"
  let ?p1 = "example_patch
               \<lparr>m_controlPoints := (m_controlPoints example_patch)[7 := ?np],
                m_bounds := Some \<lparr>bbox_min = (0, - 9, 0), bbox_max = (9, 2, 9)\<rparr>\<rparr>"
  have mkw: "makeBezierPatch 3 6148914691236517207 (m_controlPoints wrapped_patch)
         ''common/caulk'' 0 0 0 [] = Inr wrapped_patch"
    by (simp add: makeBezierPatch_def wrapped_patch_def computeBounds_def builder_add_def
        merge_point_def)
  have ub: "setControlPoint wrapped_patch 2 0 ?np = Inl UndefinedBehaviour"
    by (simp add: setControlPoint_def point_index_def wrapped_patch_def)
  have w: "bounds_current wrapped_patch \<and> \<not> patch_invariant wrapped_patch"
    using mkw
      bounds_recomputed [of 3 6148914691236517207 "m_controlPoints wrapped_patch"
        "''common/caulk''" 0 0 0 "[]" wrapped_patch wrapped_patch 2 0 ?np wrapped_patch
        example_vm 1 wrapped_patch]
    by simp
  let ?p2 = "example_patch\<lparr>m_controlPoints := (m_controlPoints example_patch)[7 := ?np]\<rparr>"
  have mk: "makeBezierPatch 3 5 (m_controlPoints example_patch) ''common/caulk'' 0 0 0
       (m_controlNormals example_patch) = Inr example_patch"
    by (simp add: makeBezierPatch_def example_patch_def computeBounds_def builder_add_def
        merge_point_def)
  have sp: "setControlPoint example_patch 1 2 ?np = Inr ?p1"
    by (simp add: setControlPoint_def point_index_def example_patch_def computeBounds_def
        builder_add_def merge_point_def Let_def)
  have as: "assign_controlPoint example_patch 1 2 ?np = Inr ?p2"
    by (simp add: assign_controlPoint_def controlPoint_ref_def point_index_def
        example_patch_def)
  have tb: "m_bounds (transform example_vm (- 1) example_patch)
       = Some \<lparr>bbox_min = (- 4, 0, 0), bbox_max = (0, 2, 8)\<rparr>"
    by (simp add: transform_eq example_vm_def example_patch_def transform_point_def
        computeBounds_def builder_add_def merge_point_def Let_def)
  have mb: "m_bounds ?p2 = m_bounds example_patch"
    by simp
  have pi: "point_index example_patch 1 2 = 7"
    by (simp add: point_index_def example_patch_def)
  show ?thesis
    using mk sp as tb mb pi mkw ub w example_patch_invariant
      bounds_recomputed [of 3 5 "m_controlPoints example_patch" "''common/caulk''" 0 0 0
        "m_controlNormals example_patch" example_patch example_patch 1 2 ?np ?p1
        example_vm "- 1" ?p2]
    by simp
qed


subsection \<open>Evaluation without subdivision\<close>

lemma length_concat_grid:
  "length (concat (map (\<lambda>r. map (f r) [0..<m]) [0..<n])) = n * m"
  by (induction n) simp_all

lemma nth_concat_grid:
  "r < n \<Longrightarrow> c < m \<Longrightarrow> concat (map (\<lambda>r. map (f r) [0..<m]) [0..<n]) ! (r * m + c) = f r c"
proof (induction n)
  case 0
  then show ?case by simp
next
  case (Suc n)
  let ?xs = "concat (map (\<lambda>r. map (f r) [0..<m]) [0..<n])"
  have l: "length ?xs = n * m" by (rule length_concat_grid)
  show ?case
  proof (cases "r < n")
    case True
    then have "r * m + c < n * m"
      using Suc.prems(2) by (rule grid_index_less)
    then show ?thesis
      using Suc.IH [OF True Suc.prems(2)] l by (simp add: nth_append)
  next
    case False
    then have "r = n" using Suc.prems(1) by simp
    then show ?thesis
      using Suc.prems(2) l by (simp add: nth_append)
  qed
qed

lemma evaluatePatchGrid_0:
  "evaluatePatchGrid ev cps rows cols 0 =
     concat (map (\<lambda>gridRow.
                    map (\<lambda>gridCol.
                           ev (collectAllSurfaceControlPoints cps rows cols
                                 ! ((gridRow - 1) * ((cols - 1) div 2) + (gridCol - 1)))
                              (if gridCol = 0 then 0 else 1) (if gridRow = 0 then 0 else 1))
                      [0..<(cols - 1) div 2 + 1])
               [0..<(rows - 1) div 2 + 1])"
proof -
  have a: "(if 0 < g then g - 1 else g) = g - 1" for g :: nat
    by simp
  have b: "(of_nat (g - (g - 1)) :: rat) = (if g = 0 then 0 else 1)" for g :: nat
    by (cases g) simp_all
  show ?thesis
    unfolding evaluatePatchGrid_def Let_def
    by (simp only: a b power_0 div_by_1 mult_1_right of_nat_1)
qed


lemma surface_counts:
  assumes "patch_invariant p"
  shows "2 * surfaceRowCount p + 1 = m_pointRowCount p"
    and "2 * surfaceColumnCount p + 1 = m_pointColumnCount p"
    and "0 < surfaceRowCount p" and "0 < surfaceColumnCount p"
proof -
  have odd: "2 * ((n - 1) div 2) + 1 = n \<and> 0 < (n - 1) div 2" if "2 < n" "n mod 2 = 1"
    for n :: nat
    using that by presburger
  have r: "2 < m_pointRowCount p" "m_pointRowCount p mod 2 = 1"
    and c: "2 < m_pointColumnCount p" "m_pointColumnCount p mod 2 = 1"
    using assms by (simp_all add: patch_invariant_def)
  show "2 * surfaceRowCount p + 1 = m_pointRowCount p" and "0 < surfaceRowCount p"
    using odd [OF r] by (simp_all add: surfaceRowCount_def)
  show "2 * surfaceColumnCount p + 1 = m_pointColumnCount p" and "0 < surfaceColumnCount p"
    using odd [OF c] by (simp_all add: surfaceColumnCount_def)
qed

lemma nth_collectAll:
  assumes "sr < (rows - 1) div 2" "sc < (cols - 1) div 2"
  shows "collectAllSurfaceControlPoints cps rows cols ! (sr * ((cols - 1) div 2) + sc)
           = collectSurfaceControlPoints cps cols sr sc"
  unfolding collectAllSurfaceControlPoints_def Let_def
  using assms by (rule nth_concat_grid)

text \<open>
  C4. For a patch that satisfies the construction contract, evaluation with zero
  subdivisions returns \<open>(surfaceRowCount + 1) * (surfaceColumnCount + 1)\<close> points, row
  by row. The point of grid row \<open>i\<close> and grid column \<open>j\<close> is sampled once, from the
  surface of row \<open>i - 1\<close> and column \<open>j - 1\<close> (row or column 0 where \<open>i\<close> or \<open>j\<close>
  is 0), which exists: a point that two surfaces share is sampled from the earlier one,
  with the parameter 1 along the shared edge, and the parameter is 0 only on the first
  grid row or column. The control points of a surface are control points of the patch,
  those of rows \<open>2 * surfaceRow\<close> to \<open>2 * surfaceRow + 2\<close> and columns
  \<open>2 * surfaceCol\<close> to \<open>2 * surfaceCol + 2\<close>, so that neighbours share their border.
\<close>

theorem evaluate_zero_subdivisions:
  assumes inv: "patch_invariant p"
  shows
    "length (evaluate ev p 0) = (surfaceRowCount p + 1) * (surfaceColumnCount p + 1)
     \<and> (\<forall>gridRow gridCol.
           gridRow \<le> surfaceRowCount p \<and> gridCol \<le> surfaceColumnCount p \<longrightarrow>
             evaluate ev p 0 ! (gridRow * (surfaceColumnCount p + 1) + gridCol)
               = ev (collectSurfaceControlPoints (m_controlPoints p) (m_pointColumnCount p)
                       (gridRow - 1) (gridCol - 1))
                    (if gridCol = 0 then 0 else 1) (if gridRow = 0 then 0 else 1)
             \<and> gridRow - 1 < surfaceRowCount p \<and> gridCol - 1 < surfaceColumnCount p)
     \<and> (\<forall>surfaceRow surfaceCol i j.
           surfaceRow < surfaceRowCount p \<and> surfaceCol < surfaceColumnCount p
             \<and> i < 3 \<and> j < 3 \<longrightarrow>
             (i + 2 * surfaceRow) * m_pointColumnCount p + j + 2 * surfaceCol
               < length (m_controlPoints p)
             \<and> collectSurfaceControlPoints (m_controlPoints p) (m_pointColumnCount p)
                   surfaceRow surfaceCol ! i ! j
                 = m_controlPoints p
                     ! ((i + 2 * surfaceRow) * m_pointColumnCount p + j + 2 * surfaceCol))"
proof (intro conjI allI impI)
  show "length (evaluate ev p 0) = (surfaceRowCount p + 1) * (surfaceColumnCount p + 1)"
    by (simp only: evaluate_def evaluatePatchGrid_0 length_concat_grid surfaceRowCount_def
        surfaceColumnCount_def)
next
  fix gridRow gridCol
  assume g: "gridRow \<le> surfaceRowCount p \<and> gridCol \<le> surfaceColumnCount p"
  have lt: "gridRow - 1 < surfaceRowCount p" "gridCol - 1 < surfaceColumnCount p"
    using g surface_counts(3,4) [OF inv] by auto
  show "gridRow - 1 < surfaceRowCount p" and "gridCol - 1 < surfaceColumnCount p"
    by (rule lt)+
  have gr: "gridRow < (m_pointRowCount p - 1) div 2 + 1"
    and gc: "gridCol < (m_pointColumnCount p - 1) div 2 + 1"
    using g by (simp_all add: surfaceRowCount_def surfaceColumnCount_def)
  have "evaluate ev p 0 ! (gridRow * ((m_pointColumnCount p - 1) div 2 + 1) + gridCol)
          = ev (collectAllSurfaceControlPoints (m_controlPoints p) (m_pointRowCount p)
                  (m_pointColumnCount p)
                  ! ((gridRow - 1) * ((m_pointColumnCount p - 1) div 2) + (gridCol - 1)))
               (if gridCol = 0 then 0 else 1) (if gridRow = 0 then 0 else 1)"
    unfolding evaluate_def evaluatePatchGrid_0 using gr gc by (rule nth_concat_grid)
  also have "collectAllSurfaceControlPoints (m_controlPoints p) (m_pointRowCount p)
                  (m_pointColumnCount p)
                  ! ((gridRow - 1) * ((m_pointColumnCount p - 1) div 2) + (gridCol - 1))
          = collectSurfaceControlPoints (m_controlPoints p) (m_pointColumnCount p)
              (gridRow - 1) (gridCol - 1)"
    using lt by (intro nth_collectAll) (simp_all add: surfaceRowCount_def surfaceColumnCount_def)
  finally show "evaluate ev p 0 ! (gridRow * (surfaceColumnCount p + 1) + gridCol)
               = ev (collectSurfaceControlPoints (m_controlPoints p) (m_pointColumnCount p)
                       (gridRow - 1) (gridCol - 1))
                    (if gridCol = 0 then 0 else 1) (if gridRow = 0 then 0 else 1)"
    by (simp add: surfaceColumnCount_def)
next
  fix surfaceRow surfaceCol i j :: nat
  assume a: "surfaceRow < surfaceRowCount p \<and> surfaceCol < surfaceColumnCount p
             \<and> i < 3 \<and> j < 3"
  have r: "i + 2 * surfaceRow < m_pointRowCount p"
    and c: "j + 2 * surfaceCol < m_pointColumnCount p"
    using a surface_counts(1,2) [OF inv] by linarith+
  have "(i + 2 * surfaceRow) * m_pointColumnCount p + (j + 2 * surfaceCol)
          < m_pointRowCount p * m_pointColumnCount p"
    using r c by (rule grid_index_less)
  then show "(i + 2 * surfaceRow) * m_pointColumnCount p + j + 2 * surfaceCol
               < length (m_controlPoints p)"
    using inv by (simp add: patch_invariant_def add.assoc)
  show "collectSurfaceControlPoints (m_controlPoints p) (m_pointColumnCount p)
                   surfaceRow surfaceCol ! i ! j
                 = m_controlPoints p
                     ! ((i + 2 * surfaceRow) * m_pointColumnCount p + j + 2 * surfaceCol)"
    using a by (simp add: collectSurfaceControlPoints_def Let_def)
qed

theorem evaluate_zero_subdivisions_witness:
  "patch_invariant example_patch
   \<and> surfaceRowCount example_patch = 1 \<and> surfaceColumnCount example_patch = 2
   \<and> length (evaluate corner_sample example_patch 0) = 6
   \<and> evaluate corner_sample example_patch 0 ! (1 * 3 + 1)
       = corner_sample
           (collectSurfaceControlPoints (m_controlPoints example_patch) 5 0 0) 1 1
   \<and> evaluate corner_sample example_patch 0 ! (1 * 3 + 1)
       = \<lparr>xyz = (2, 2, 4), tex_u = 2, tex_v = 2\<rparr>"
proof -
  have n: "surfaceRowCount example_patch = 1" "surfaceColumnCount example_patch = 2"
    "m_pointColumnCount example_patch = 5"
    by (simp_all add: surfaceRowCount_def surfaceColumnCount_def example_patch_def)
  have v: "corner_sample
             (collectSurfaceControlPoints (m_controlPoints example_patch) 5 0 0) 1 1
           = \<lparr>xyz = (2, 2, 4), tex_u = 2, tex_v = 2\<rparr>"
    by (simp add: corner_sample_def collectSurfaceControlPoints_def example_patch_def Let_def)
  have g: "(1::nat) \<le> surfaceRowCount example_patch \<and> (1::nat) \<le> surfaceColumnCount example_patch"
    by (simp add: n)
  from evaluate_zero_subdivisions [OF example_patch_invariant, of corner_sample]
  have len: "length (evaluate corner_sample example_patch 0)
               = (surfaceRowCount example_patch + 1) * (surfaceColumnCount example_patch + 1)"
    and pt: "evaluate corner_sample example_patch 0
               ! (1 * (surfaceColumnCount example_patch + 1) + 1)
             = corner_sample
                 (collectSurfaceControlPoints (m_controlPoints example_patch)
                    (m_pointColumnCount example_patch) (1 - 1) (1 - 1))
                 (if (1::nat) = 0 then 0 else 1) (if (1::nat) = 0 then 0 else 1)"
    using g by blast+
  show ?thesis
    using len pt v example_patch_invariant by (simp add: n)
qed

section \<open>Properties of the brush geometry operations\<close>

subsection \<open>CSG intersection\<close>

lemma intersect_loop_all:
  "intersect_loop mops ns b m =
     (case intersect_all (intersect mops m) (map (node_brush mops) ns) b of
        Inl e \<Rightarrow> (None, log_error mops (''Could not intersect brushes: '' @ e) m)
      | Inr b' \<Rightarrow> (Some b', m))"
  by (induction ns arbitrary: b) (simp_all split: sum.splits)

text \<open>
  C3, as stated, fails. In the example map the two selected brushes are disjoint, so
  their intersection fails; yet the operation does not report failure and does not leave
  the map as it was: it returns what the commit returns, here true, and the two brushes
  are gone from the map.
\<close>

theorem csgIntersect_counterexample:
  "intersect simple_ops disjoint_map (0, 10) (20, 30) = Inl ''Brush is empty''
   \<and> csgIntersect simple_ops disjoint_map
       = (True, \<lparr>sm_nodes = [(2, 5, 25)], sm_selected = [],
                 sm_log = [''Could not intersect brushes: Brush is empty''],
                 sm_open = False\<rparr>)
   \<and> csgIntersect simple_ops disjoint_map \<noteq> (False, disjoint_map)"
  by (simp add: csgIntersect_def simple_ops_def disjoint_map_def Let_def)

text \<open>
  C3, amended. With at least two brushes selected, the brushes are intersected pairwise
  in sequence. If an intersection fails, the error is logged and no brush is added, so
  no degenerate brush results; in a transaction, the selected brushes are deselected and
  removed, and the transaction is committed: the operation returns what the commit
  returns. If all intersections succeed, the intersection is added in place of the
  selected brushes and selected, and the transaction is committed, unless adding it
  fails: then the transaction is cancelled and the operation returns false.
\<close>

theorem csgIntersect_spec:
  assumes "2 \<le> length (selectedBrushes mops m)"
  shows
    "(\<forall>e. intersect_all (intersect mops m) (map (node_brush mops) (tl (selectedBrushes mops m)))
             (node_brush mops (hd (selectedBrushes mops m))) = Inl e \<longrightarrow>
          csgIntersect mops m =
            commit mops
              (removeNodes mops (selectedBrushes mops m)
                 (deselectNodes mops (selectedBrushes mops m)
                    (startTransaction mops ''CSG Intersect''
                       (log_error mops (''Could not intersect brushes: '' @ e) m)))))
     \<and> (\<forall>b. intersect_all (intersect mops m)
               (map (node_brush mops) (tl (selectedBrushes mops m)))
               (node_brush mops (hd (selectedBrushes mops m))) = Inr b \<longrightarrow>
          csgIntersect mops m =
            (case addBrushNode mops (selectedBrushes mops m) b
                    (deselectNodes mops (selectedBrushes mops m)
                       (startTransaction mops ''CSG Intersect'' m)) of
               (None, m3) \<Rightarrow> (False, cancel mops m3)
             | (Some intersectionNode, m3) \<Rightarrow>
                 commit mops
                   (selectNodes mops [intersectionNode]
                      (removeNodes mops (selectedBrushes mops m) m3))))"
  using assms by (simp add: csgIntersect_def Let_def intersect_loop_all not_less)

theorem csgIntersect_spec_witness:
  "2 \<le> length (selectedBrushes simple_ops disjoint_map)
   \<and> csgIntersect simple_ops disjoint_map
       = commit simple_ops
           (removeNodes simple_ops [(0, 0, 10), (1, 20, 30)]
              (deselectNodes simple_ops [(0, 0, 10), (1, 20, 30)]
                 (startTransaction simple_ops ''CSG Intersect''
                    (log_error simple_ops ''Could not intersect brushes: Brush is empty''
                       disjoint_map))))"
proof -
  have h: "2 \<le> length (selectedBrushes simple_ops disjoint_map)"
    by (simp add: simple_ops_def disjoint_map_def)
  have b: "selectedBrushes simple_ops disjoint_map = [(0, 0, 10), (1, 20, 30)]"
    by (simp add: simple_ops_def disjoint_map_def)
  have f: "intersect_all (intersect simple_ops disjoint_map)
             (map (node_brush simple_ops) (tl (selectedBrushes simple_ops disjoint_map)))
             (node_brush simple_ops (hd (selectedBrushes simple_ops disjoint_map)))
           = Inl ''Brush is empty''"
    by (simp add: simple_ops_def disjoint_map_def)
  show ?thesis
    using csgIntersect_spec [OF h] f h by (simp add: b)
qed

subsection \<open>Chamfering edges\<close>

lemma chamferBrushEdge_parallel:
  "parallel_faces ops (cs_brush st) edgePosition \<Longrightarrow>
   chamferBrushEdge ops mops edgePosition distance segments st = Inr (True, st)"
  by (auto simp: parallel_faces_def chamferBrushEdge_def Let_def split: option.splits)

lemma chamfer_edges_of_brush_parallel:
  "\<forall>e \<in> set es. parallel_faces ops (cs_brush st) e \<Longrightarrow>
   chamfer_edges_of_brush ops mops distance segments es st = Inr (True, st)"
  by (induction es) (simp_all add: chamferBrushEdge_parallel)

lemma chamfer_brush_parallel:
  "\<forall>e \<in> set es. hasEdge ops (cs_brush st) e \<longrightarrow> parallel_faces ops (cs_brush st) e \<Longrightarrow>
   chamfer_brush ops mops es distance segments st = Inr (True, st)"
  by (simp add: chamfer_brush_def Let_def chamfer_edges_of_brush_parallel)

lemma applyToNodeContents_parallel:
  assumes "\<forall>node \<in> set nodes. \<forall>e \<in> set es.
             hasEdge ops (node_brush mops node) e \<longrightarrow>
               parallel_faces ops (node_brush mops node) e"
  shows "applyToNodeContents (node_brush mops) (chamfer_brush ops mops es distance segments)
           nodes (did, m)
         = Inr (Some (map (\<lambda>node. (node, node_brush mops node)) nodes), did, m)"
  using assms
  by (induction nodes) (simp_all add: chamfer_brush_parallel)

text \<open>
  C8. Chamfering an edge whose two faces are parallel or anti-parallel is no error and
  changes nothing: \<^verbatim>\<open>chamferBrushEdge\<close> returns true and leaves the brush, the flag
  \<^verbatim>\<open>didChamfer\<close> and the map as they were; and when this is so for every edge to
  chamfer of every selected brush, \<^verbatim>\<open>chamferEdges\<close> returns false, for no chamfer
  performed, and leaves the map as it was.
\<close>

theorem chamfer_parallel_faces:
  fixes ops :: "('map, 'brush, 'edge, 'fg, 'face, 'a::linordered_field) brush_ops"
    and mops :: "('map, 'node, 'brush) map_ops"
  shows
    "(parallel_faces ops (cs_brush st) edgePosition \<longrightarrow>
        chamferBrushEdge ops mops edgePosition distance segments st = Inr (True, st))
     \<and> ((\<forall>node \<in> set (selectedBrushes mops m).
            \<forall>e \<in> set (vec_sort_and_remove_duplicates ops edgePositions).
              hasEdge ops (node_brush mops node) e \<longrightarrow>
                parallel_faces ops (node_brush mops node) e) \<longrightarrow>
          chamferEdges ops mops m edgePositions distance segments = Inr (False, m))"
  by (simp add: chamferBrushEdge_parallel chamferEdges_def Let_def
      applyToNodeContents_parallel)

theorem chamfer_parallel_faces_witness:
  "parallel_faces example_brush_ops (0, 10) ((0, 0, 0), (0, 0, 1))
   \<and> chamferBrushEdge example_brush_ops simple_ops ((0, 0, 0), (0, 0, 1)) 8 4
        \<lparr>cs_brush = (0, 10), cs_didChamfer = False, cs_map = disjoint_map\<rparr>
       = Inr (True, \<lparr>cs_brush = (0, 10), cs_didChamfer = False, cs_map = disjoint_map\<rparr>)
   \<and> chamferEdges example_brush_ops simple_ops disjoint_map [((0, 0, 0), (0, 0, 1))] 8 4
       = Inr (False, disjoint_map)"
proof -
  let ?e = "((0, 0, 0), (0, 0, 1)) :: rat vec3 \<times> rat vec3"
  have p: "parallel_faces example_brush_ops b ?e" for b
    by (simp add: parallel_faces_def edge_normals_def findEdgeByPositions_def
        example_brush_ops_def squared_length_def dot_def vec_sub_def vec_scale_def Let_def)
  have q: "\<forall>node \<in> set (selectedBrushes simple_ops disjoint_map).
            \<forall>e \<in> set (vec_sort_and_remove_duplicates example_brush_ops [?e]).
              hasEdge example_brush_ops (node_brush simple_ops node) e \<longrightarrow>
                parallel_faces example_brush_ops (node_brush simple_ops node) e"
    using p by (simp add: example_brush_ops_def)
  show ?thesis
    using p [of "(0, 10)"] q
      chamfer_parallel_faces [of example_brush_ops
        "\<lparr>cs_brush = (0, 10), cs_didChamfer = False, cs_map = disjoint_map\<rparr>" ?e
        simple_ops 8 4 disjoint_map "[?e]"]
    by simp
qed

end
